theory Spec2Isabelle
  imports Complex_Main "HOL-Library.Word"
begin

section \<open>Go values\<close>

text \<open>
  A Go string is modelled by the sequence of its Unicode code points (the string is taken
  to be valid UTF-8, as \<^verbatim>\<open>[]rune(s)\<close> sees it). \<^verbatim>\<open>len(s)\<close> counts bytes, so it is
  the sum of the UTF-8 widths of the code points; \<^verbatim>\<open>utf8.RuneCountInString(s)\<close> is the
  length of the list. String literals of the source are ASCII and are embedded with \<open>str\<close>.
\<close>

type_synonym rune = nat
type_synonym gostring = "rune list"

definition str :: "string \<Rightarrow> gostring" where
  "str s = map of_char s"

definition utf8_width :: "rune \<Rightarrow> nat" where
  "utf8_width r = (if r < 128 then 1 else if r < 2048 then 2 else if r < 65536 then 3 else 4)"

definition len :: "gostring \<Rightarrow> nat" where
  "len s = sum_list (map utf8_width s)"

definition RuneCountInString :: "gostring \<Rightarrow> nat" where
  "RuneCountInString s = length s"

text \<open>\<^verbatim>\<open>unicode.IsSpace\<close>: the Latin-1 spaces and the characters of category Z / property
  White\_Space.\<close>

definition IsSpace :: "rune \<Rightarrow> bool" where
  "IsSpace r = (r \<in> {9, 10, 11, 12, 13, 32, 133, 160, 5760, 8232, 8233, 8239, 8287, 12288}
                \<or> (8192 \<le> r \<and> r \<le> 8202))"

definition TrimSpace :: "gostring \<Rightarrow> gostring" where
  "TrimSpace s = rev (dropWhile IsSpace (rev (dropWhile IsSpace s)))"

text \<open>\<^verbatim>\<open>strings.Join(elems, sep)\<close>.\<close>

fun Join :: "gostring list \<Rightarrow> gostring \<Rightarrow> gostring" where
  "Join [] sep = []"
| "Join [x] sep = x"
| "Join (x # y # ys) sep = x @ sep @ Join (y # ys) sep"

text \<open>Decimal rendering of an integer, as \<^verbatim>\<open>%d\<close> prints it.\<close>

function digits :: "nat \<Rightarrow> gostring" where
  "digits n = (if n < 10 then [48 + n] else digits (n div 10) @ [48 + n mod 10])"
  by pat_completeness auto
termination
  by (relation "measure id") auto

definition Itoa :: "int \<Rightarrow> gostring" where
  "Itoa i = (if i < 0 then 45 # digits (nat (- i)) else digits (nat i))"

text \<open>
  A Go \<^verbatim>\<open>error\<close>: either a plain message (\<^verbatim>\<open>fmt.Errorf\<close> without \<^verbatim>\<open>%w\<close>, or an error
  of a library) or an error that wraps another one (\<^verbatim>\<open>fmt.Errorf("prefix%wsuffix", err)\<close>).
  \<open>Error\<close> is the method \<^verbatim>\<open>err.Error()\<close>, \<open>Unwrap\<close> is \<^verbatim>\<open>errors.Unwrap\<close>.
\<close>

datatype go_error = ErrorNew gostring | ErrorWrap gostring go_error gostring

fun Error :: "go_error \<Rightarrow> gostring" where
  "Error (ErrorNew m) = m"
| "Error (ErrorWrap pre e suf) = pre @ Error e @ suf"

fun Unwrap :: "go_error \<Rightarrow> go_error option" where
  "Unwrap (ErrorNew m) = None"
| "Unwrap (ErrorWrap pre e suf) = Some e"

section \<open>Generative-text client (internal/services/gemini.go)\<close>

text \<open>
  The genai client is an external collaborator. One call of
  \<^verbatim>\<open>client.Models.GenerateContent\<close> returns a response pointer and an error; the response
  carries what \<^verbatim>\<open>resp.Text()\<close> returns and the candidates. A candidate's content is a
  pointer to a struct of a slice and a role, which \<^verbatim>\<open>%v\<close> prints as
  \<^verbatim>\<open>&{<parts> <role>}\<close>; \<open>Parts\<close> holds the printed form of the slice.
\<close>

record genai_Content =
  Parts :: gostring
  Role :: gostring

record genai_Candidate =
  Content :: "genai_Content option"

record genai_Response =
  Text :: gostring
  Candidates :: "genai_Candidate list"

type_synonym genai_reply = "genai_Response option \<times> go_error option"

definition Sprintf_v :: "genai_Content \<Rightarrow> gostring" where
  "Sprintf_v c = str ''&{'' @ Parts c @ str '' '' @ Role c @ str ''}''"

text \<open>
  The service holds the client. The outcome of the \<open>k\<close>-th \<^verbatim>\<open>GenerateContent\<close> call for a
  prompt and a temperature is given by \<open>GenerateContent\<close>; the temperature is the decimal
  value of the \<^verbatim>\<open>float32\<close> argument.
\<close>

record geminiService =
  GenerateContent :: "gostring \<Rightarrow> rat \<Rightarrow> int \<Rightarrow> genai_reply"

text \<open>A \<^verbatim>\<open>context.Context\<close> as the retry loop reads it: whether \<^verbatim>\<open>ctx.Done()\<close> is closed
  at the check that follows attempt \<open>k\<close>, and \<^verbatim>\<open>ctx.Err()\<close>.\<close>

record go_context =
  Done :: "int \<Rightarrow> bool"
  Err :: go_error

text \<open>\<^verbatim>\<open>GenerateText\<close>, for the \<open>k\<close>-th call: \<open>Inl\<close> is the non-nil error (the string
  returned with it is empty), \<open>Inr\<close> the text returned with a nil error.\<close>

definition GenerateText :: "geminiService \<Rightarrow> gostring \<Rightarrow> rat \<Rightarrow> int \<Rightarrow> go_error + gostring" where
  "GenerateText g prompt temperature k =
     (case GenerateContent g prompt temperature k of
        (_, Some err) \<Rightarrow> Inl (ErrorWrap (str ''failed to generate text: '') err [])
      | (None, None) \<Rightarrow> Inl (ErrorNew (str ''no response generated (nil response)''))
      | (Some resp, None) \<Rightarrow>
          (let text = Text resp in
           if text = [] then
             (let textParts =
                    (if Candidates resp \<noteq> [] then
                       concat (map (\<lambda>candidate. case Content candidate of
                                                    None \<Rightarrow> []
                                                  | Some c \<Rightarrow> [Sprintf_v c])
                                   (Candidates resp))
                     else [])
              in if length textParts > 0 then Inr (Join textParts (str ''\<newline>''))
                 else Inl (ErrorNew (str ''no text content in response'')))
           else Inr text))"

text \<open>
  \<^verbatim>\<open>GenerateTextWithRetry\<close>. The loop variable \<open>attempt\<close> starts at 1; the function returns
  the result together with the number of \<^verbatim>\<open>GenerateText\<close> calls it has made. \<open>lastErr\<close> is
  nil (\<open>None\<close>) until an attempt has failed; \<^verbatim>\<open>%w\<close> of a nil error prints
  \<^verbatim>\<open>%!w(<nil>)\<close> and wraps nothing.
\<close>

function retry_loop ::
  "geminiService \<Rightarrow> go_context \<Rightarrow> gostring \<Rightarrow> rat \<Rightarrow> int \<Rightarrow> int \<Rightarrow> go_error option
     \<Rightarrow> (go_error + gostring) \<times> int" where
  "retry_loop g ctx prompt temperature maxRetries attempt lastErr =
     (if attempt \<le> maxRetries then
        (case GenerateText g prompt temperature attempt of
           Inr result \<Rightarrow> (Inr result, attempt)
         | Inl err \<Rightarrow>
             if Done ctx attempt
             then (Inl (ErrorWrap (str ''context cancelled: '') (Err ctx) []), attempt)
             else retry_loop g ctx prompt temperature maxRetries (attempt + 1) (Some err))
      else
        (Inl (case lastErr of
                Some e \<Rightarrow> ErrorWrap (str ''failed after '' @ Itoa maxRetries @ str '' attempts: '') e []
              | None \<Rightarrow> ErrorNew (str ''failed after '' @ Itoa maxRetries
                                    @ str '' attempts: %!w(<nil>)'')),
         attempt - 1))"
  by pat_completeness auto
termination
  by (relation "measure (\<lambda>(g, ctx, prompt, temperature, maxRetries, attempt, lastErr).
                           nat (maxRetries + 1 - attempt))") auto

definition GenerateTextWithRetry ::
  "geminiService \<Rightarrow> go_context \<Rightarrow> gostring \<Rightarrow> rat \<Rightarrow> int \<Rightarrow> go_error + gostring" where
  "GenerateTextWithRetry g ctx prompt temperature maxRetries =
     fst (retry_loop g ctx prompt temperature maxRetries 1 None)"

definition attempts_made :: "geminiService \<Rightarrow> go_context \<Rightarrow> gostring \<Rightarrow> rat \<Rightarrow> int \<Rightarrow> int" where
  "attempts_made g ctx prompt temperature maxRetries =
     snd (retry_loop g ctx prompt temperature maxRetries 1 None)"

section \<open>Job Store (internal/repositories/evaluation.go, internal/models)\<close>

type_synonym uuid = "128 word"

datatype EvaluationStatus = StatusQueued | StatusProcessing | StatusCompleted | StatusFailed

text \<open>
  The \<^verbatim>\<open>Evaluation\<close> row. A pointer field is an option (\<open>None\<close> is nil, SQL NULL); a
  \<^verbatim>\<open>float64\<close> that the program only stores and prints is its exact rational value; a
  \<^verbatim>\<open>time.Time\<close> is a number. The two relation fields are never loaded by the repository
  and are left out.
\<close>

record Evaluation =
  ID :: uuid
  JobTitle :: gostring
  CVDocumentID :: uuid
  ProjectDocumentID :: uuid
  Status :: EvaluationStatus
  CVMatchRate :: "rat option"
  CVFeedback :: "gostring option"
  ProjectScore :: "rat option"
  ProjectFeedback :: "gostring option"
  OverallSummary :: "gostring option"
  ErrorMessage :: "gostring option"
  CreatedAt :: nat
  UpdatedAt :: nat

record EvaluationUpdateData =
  upd_CVMatchRate :: "rat option"
  upd_CVFeedback :: "gostring option"
  upd_ProjectScore :: "rat option"
  upd_ProjectFeedback :: "gostring option"
  upd_OverallSummary :: "gostring option"

text \<open>
  The table \<^verbatim>\<open>evaluations\<close>, keyed by its primary key. Every repository method runs one
  statement; \<open>dbErr\<close> is the \<^verbatim>\<open>Error\<close> gorm reports for it other than
  \<^verbatim>\<open>ErrRecordNotFound\<close> (\<open>None\<close>: the statement executes), \<open>now\<close> is \<^verbatim>\<open>time.Now()\<close>.
  A method returns \<open>Inl\<close> of its error, leaving the table as it was, or \<open>Inr\<close> of its
  result.
\<close>

type_synonym evaluations = "uuid \<rightharpoonup> Evaluation"

definition ErrRecordNotFound :: go_error where
  "ErrRecordNotFound = ErrorNew (str ''record not found'')"

definition FindByID :: "evaluations \<Rightarrow> go_error option \<Rightarrow> uuid \<Rightarrow> go_error + Evaluation" where
  "FindByID db dbErr evalID =
     (case dbErr of
        Some err \<Rightarrow> Inl (ErrorWrap (str ''failed to find evaluation: '') err [])
      | None \<Rightarrow>
          (case db evalID of
             None \<Rightarrow> Inl (ErrorNew (str ''evaluation not found''))
           | Some eval \<Rightarrow> Inr eval))"

definition UpdateStatus ::
  "evaluations \<Rightarrow> go_error option \<Rightarrow> nat \<Rightarrow> uuid \<Rightarrow> EvaluationStatus \<Rightarrow> go_error + evaluations" where
  "UpdateStatus db dbErr now evalID status =
     (case dbErr of
        Some err \<Rightarrow> Inl (ErrorWrap (str ''failed to update status: '') err [])
      | None \<Rightarrow>
          (case db evalID of
             None \<Rightarrow> Inl (ErrorNew (str ''evaluation not found''))
           | Some eval \<Rightarrow> Inr (db(evalID \<mapsto> eval\<lparr>Status := status, UpdatedAt := now\<rparr>))))"

text \<open>The columns \<^verbatim>\<open>UpdateResult\<close> writes: the status and the time always, a result
  column only when its pointer in \<open>data\<close> is not nil.\<close>

definition apply_updates :: "EvaluationUpdateData \<Rightarrow> nat \<Rightarrow> Evaluation \<Rightarrow> Evaluation" where
  "apply_updates data now eval =
     eval\<lparr>Status := StatusCompleted,
          UpdatedAt := now,
          CVMatchRate := (case upd_CVMatchRate data of Some v \<Rightarrow> Some v | None \<Rightarrow> CVMatchRate eval),
          CVFeedback := (case upd_CVFeedback data of Some v \<Rightarrow> Some v | None \<Rightarrow> CVFeedback eval),
          ProjectScore := (case upd_ProjectScore data of Some v \<Rightarrow> Some v | None \<Rightarrow> ProjectScore eval),
          ProjectFeedback :=
            (case upd_ProjectFeedback data of Some v \<Rightarrow> Some v | None \<Rightarrow> ProjectFeedback eval),
          OverallSummary :=
            (case upd_OverallSummary data of Some v \<Rightarrow> Some v | None \<Rightarrow> OverallSummary eval)\<rparr>"

definition UpdateResult ::
  "evaluations \<Rightarrow> go_error option \<Rightarrow> nat \<Rightarrow> uuid \<Rightarrow> EvaluationUpdateData \<Rightarrow> go_error + evaluations" where
  "UpdateResult db dbErr now evalID data =
     (case dbErr of
        Some err \<Rightarrow> Inl (ErrorWrap (str ''failed to update result: '') err [])
      | None \<Rightarrow>
          (case db evalID of
             None \<Rightarrow> Inl (ErrorNew (str ''evaluation not found''))
           | Some eval \<Rightarrow> Inr (db(evalID \<mapsto> apply_updates data now eval))))"

definition UpdateError ::
  "evaluations \<Rightarrow> go_error option \<Rightarrow> nat \<Rightarrow> uuid \<Rightarrow> gostring \<Rightarrow> go_error + evaluations" where
  "UpdateError db dbErr now evalID errorMsg =
     (case dbErr of
        Some err \<Rightarrow> Inl (ErrorWrap (str ''failed to update error: '') err [])
      | None \<Rightarrow>
          (case db evalID of
             None \<Rightarrow> Inl (ErrorNew (str ''evaluation not found''))
           | Some eval \<Rightarrow>
               Inr (db(evalID \<mapsto> eval\<lparr>Status := StatusFailed, ErrorMessage := Some errorMsg,
                                   UpdatedAt := now\<rparr>))))"




section \<open>Document Store (internal/repositories/document.go, internal/models/document.go)\<close>

record Document =
  doc_ID :: uuid
  Filename :: gostring
  OriginalFileName :: gostring
  FileType :: gostring
  FilePath :: gostring
  doc_CreatedAt :: nat
  doc_UpdatedAt :: nat

type_synonym documents = "uuid \<rightharpoonup> Document"

definition doc_FindByID :: "documents \<Rightarrow> go_error option \<Rightarrow> uuid \<Rightarrow> go_error + Document" where
  "doc_FindByID docs dbErr docID =
     (case dbErr of
        Some err \<Rightarrow> Inl (ErrorWrap (str ''failed to find document: '') err [])
      | None \<Rightarrow>
          (case docs docID of
             None \<Rightarrow> Inl (ErrorWrap (str ''document not found: '') ErrRecordNotFound [])
           | Some doc \<Rightarrow> Inr doc))"

section \<open>String functions of the standard library used by the pipeline\<close>

definition HasPrefix :: "gostring \<Rightarrow> gostring \<Rightarrow> bool" where
  "HasPrefix s p = (take (length p) s = p)"

text \<open>\<^verbatim>\<open>strings.Index\<close> and \<^verbatim>\<open>strings.LastIndex\<close>: the position of the first (last)
  occurrence, or \<open>-1\<close>. Positions count list elements; the source only uses them to slice
  the same string.\<close>

fun Index :: "gostring \<Rightarrow> gostring \<Rightarrow> int" where
  "Index [] sub = (if sub = [] then 0 else -1)"
| "Index (c # s) sub =
     (if HasPrefix (c # s) sub then 0
      else (let i = Index s sub in if i < 0 then -1 else i + 1))"

fun LastIndex :: "gostring \<Rightarrow> gostring \<Rightarrow> int" where
  "LastIndex [] sub = (if sub = [] then 0 else -1)"
| "LastIndex (c # s) sub =
     (let i = LastIndex s sub in
      if i \<ge> 0 then i + 1 else if HasPrefix (c # s) sub then 0 else -1)"

text \<open>\<^verbatim>\<open>strings.ReplaceAll(s, old, new)\<close>: the non-overlapping occurrences of \<open>old\<close>,
  found from the left, are replaced; an empty \<open>old\<close> matches before every rune and at the
  end.\<close>

function ReplaceAll :: "gostring \<Rightarrow> gostring \<Rightarrow> gostring \<Rightarrow> gostring" where
  "ReplaceAll s old new =
     (if old = [] then new @ concat (map (\<lambda>c. c # new) s)
      else if s = [] then []
      else if HasPrefix s old then new @ ReplaceAll (drop (length old) s) old new
      else hd s # ReplaceAll (tl s) old new)"
  by pat_completeness auto
termination
  by (relation "measure (\<lambda>(s, old, new). length s)") auto

declare ReplaceAll.simps [simp del]

text \<open>The slice expression \<^verbatim>\<open>s[lo:hi]\<close> for \<open>0 \<le> lo \<le> hi \<le> length s\<close> (the only way the
  source uses it).\<close>

definition slice :: "gostring \<Rightarrow> int \<Rightarrow> int \<Rightarrow> gostring" where
  "slice s lo hi = take (nat (hi - lo)) (drop (nat lo) s)"

text \<open>\<^verbatim>\<open>%.2f\<close> of a finite float: the exact value rounded to two decimals, ties to even.\<close>

definition round_half_even :: "rat \<Rightarrow> int" where
  "round_half_even y =
     (let f = \<lfloor>y\<rfloor>; d = y - of_int f in
      if d < 1 / 2 then f else if d > 1 / 2 then f + 1 else if even f then f else f + 1)"

definition Sprintf_2f :: "rat \<Rightarrow> gostring" where
  "Sprintf_2f x =
     (let n = nat (round_half_even (\<bar>x\<bar> * 100)) in
      (if x < 0 then str ''-'' else []) @ digits (n div 100) @ str ''.''
        @ [48 + (n mod 100) div 10, 48 + n mod 10])"

section \<open>Prompt builder (internal/services/prompt.go)\<close>

definition BuildCVEvaluationPrompt :: "gostring \<Rightarrow> gostring \<Rightarrow> gostring \<Rightarrow> gostring \<Rightarrow> gostring" where
  \<open>BuildCVEvaluationPrompt cvText jobDescription scoringRubric jobTitle =
     str ''You are an expert HR recruiter evaluating a candidate's CV for a ''
     @ jobTitle
     @ str '' position.\<newline>\<newline>JOB DESCRIPTION:\<newline>''
     @ jobDescription
     @ str ''\<newline>\<newline>SCORING RUBRIC:\<newline>''
     @ scoringRubric
     @ str ''\<newline>\<newline>CANDIDATE CV:\<newline>''
     @ cvText
     @ str (''\<newline>\<newline>''
          @ ''Your task is to evaluate the candidate's CV against the job description using the scoring rubric provided.\<newline>\<newline>''
          @ ''Evaluate the following parameters (1-5 scale):\<newline>''
          @ ''1. Technical Skills Match (Weight: 40%) - Alignment with job requirements (backend, databases, APIs, cloud, AI/LLM)\<newline>''
          @ ''2. Experience Level (Weight: 25%) - Years of experience and project complexity\<newline>''
          @ ''3. Relevant Achievements (Weight: 20%) - Impact of past work (scaling, performance, adoption)\<newline>''
          @ ''4. Cultural/Collaboration Fit (Weight: 15%) - Communication, learning mindset, teamwork/leadership\<newline>\<newline>''
          @ ''Return your response in the following JSON format:\<newline>''
          @ ''{\<newline>  "technical_skills_score": <1-5>,\<newline>''
          @ ''  "experience_level_score": <1-5>,\<newline>''
          @ ''  "achievements_score": <1-5>,\<newline>''
          @ ''  "cultural_fit_score": <1-5>,\<newline>''
          @ ''  "weighted_average": <calculated weighted average>,\<newline>''
          @ ''  "match_rate": <weighted_average * 0.2, as decimal 0-1>,\<newline>''
          @ ''  "feedback": "<detailed feedback 3-5 sentences explaining strengths and gaps>"\<newline>''
          @ ''}\<newline>\<newline>''
          @ ''Be objective and thorough. Provide specific examples from the CV to justify your scores.'')\<close>

definition BuildProjectEvaluationPrompt :: "gostring \<Rightarrow> gostring \<Rightarrow> gostring \<Rightarrow> gostring" where
  \<open>BuildProjectEvaluationPrompt projectText caseStudyBrief scoringRubric =
     str (''You are an expert technical evaluator assessing a candidate's project report for a backend developer take-home assignment.\<newline>\<newline>''
          @ ''CASE STUDY BRIEF (Requirements):\<newline>'')
     @ caseStudyBrief
     @ str ''\<newline>\<newline>SCORING RUBRIC:\<newline>''
     @ scoringRubric
     @ str ''\<newline>\<newline>CANDIDATE'S PROJECT REPORT:\<newline>''
     @ projectText
     @ str (''\<newline>\<newline>''
          @ ''Your task is to evaluate the candidate's project report against the case study requirements using the scoring rubric.\<newline>\<newline>''
          @ ''Evaluate the following parameters (1-5 scale):\<newline>''
          @ ''1. Correctness (Weight: 30%) - Implements prompt design, LLM chaining, RAG context injection\<newline>''
          @ ''2. Code Quality & Structure (Weight: 25%) - Clean, modular, reusable, tested\<newline>''
          @ ''3. Resilience & Error Handling (Weight: 20%) - Handles long jobs, retries, randomness, API failures\<newline>''
          @ ''4. Documentation & Explanation (Weight: 15%) - README clarity, setup instructions, trade-off explanations\<newline>''
          @ ''5. Creativity/Bonus (Weight: 10%) - Extra features beyond requirements\<newline>\<newline>''
          @ ''Return your response in the following JSON format:\<newline>''
          @ ''{\<newline>  "correctness_score": <1-5>,\<newline>''
          @ ''  "code_quality_score": <1-5>,\<newline>''
          @ ''  "resilience_score": <1-5>,\<newline>''
          @ ''  "documentation_score": <1-5>,\<newline>''
          @ ''  "creativity_score": <1-5>,\<newline>''
          @ ''  "weighted_average": <calculated weighted average>,\<newline>''
          @ ''  "project_score": <weighted_average as decimal>,\<newline>''
          @ ''  "feedback": "<detailed feedback 3-5 sentences explaining what was done well and what could be improved>"\<newline>''
          @ ''}\<newline>\<newline>''
          @ ''Be thorough and specific. Reference actual implementation details from the report.'')\<close>

definition BuildFinalSummaryPrompt :: "gostring \<Rightarrow> gostring \<Rightarrow> rat \<Rightarrow> rat \<Rightarrow> gostring \<Rightarrow> gostring" where
  \<open>BuildFinalSummaryPrompt cvFeedback projectFeedback cvMatchRate projectScore jobTitle =
     str (''You are an expert technical hiring manager making a final assessment of a candidate for a '')
     @ jobTitle
     @ str '' position.\<newline>\<newline>CV EVALUATION RESULTS:\<newline>- Match Rate: ''
     @ Sprintf_2f cvMatchRate
     @ str '' (out of 1.0)\<newline>- Feedback: ''
     @ cvFeedback
     @ str ''\<newline>\<newline>PROJECT EVALUATION RESULTS:\<newline>- Project Score: ''
     @ Sprintf_2f projectScore
     @ str '' (out of 5.0)\<newline>- Feedback: ''
     @ projectFeedback
     @ str (''\<newline>\<newline>''
          @ ''Based on both evaluations, provide a concise overall summary (3-5 sentences) that includes:\<newline>''
          @ ''1. Overall strengths of the candidate\<newline>''
          @ ''2. Key gaps or areas for improvement\<newline>''
          @ ''3. Final recommendation (Strong Hire / Hire / Maybe / No Hire)\<newline>\<newline>''
          @ ''Return ONLY the summary text, no JSON format needed. Be direct and actionable.'')\<close>

text \<open>A search hit of the vector store. The metadata map is carried but never read by the
  pipeline; its values are kept in printed form.\<close>

record SearchResult =
  sr_ID :: gostring
  Score :: rat
  sr_Text :: gostring
  DocType :: gostring
  Metadata :: "(gostring \<times> gostring) list"

text \<open>The loop of \<^verbatim>\<open>FormatRAGContext\<close>: \<open>i\<close> is the index of the first result of the
  list.\<close>

fun format_parts :: "int \<Rightarrow> SearchResult list \<Rightarrow> gostring list" where
  "format_parts i [] = []"
| "format_parts i (result # results) =
     (str ''--- Context '' @ Itoa (i + 1) @ str '' (Score: '' @ Sprintf_2f (Score result)
        @ str '') ---\<newline>'' @ TrimSpace (sr_Text result))
     # format_parts (i + 1) results"

definition FormatRAGContext :: "SearchResult list \<Rightarrow> gostring" where
  "FormatRAGContext results =
     (if length results = 0 then str ''No relevant context found.''
      else Join (format_parts 0 results) (str ''\<newline>\<newline>''))"

section \<open>Structured-response extraction (internal/services/evaluator.go)\<close>

definition extractJSON :: "gostring \<Rightarrow> gostring" where
  "extractJSON text0 =
     (let text1 = ReplaceAll text0 (str ''```json'') [];
          text = ReplaceAll text1 (str ''```'') [];
          startObj = Index text (str ''{'');
          startArr = Index text (str ''['');
          endObj = LastIndex text (str ''}'');
          endArr = LastIndex text (str '']'')
      in if startObj \<noteq> -1 \<and> endObj \<noteq> -1 \<and> endObj > startObj
         then slice text startObj (endObj + 1)
         else if startArr \<noteq> -1 \<and> endArr \<noteq> -1 \<and> endArr > startArr
         then slice text startArr (endArr + 1)
         else text)"

text \<open>\<^verbatim>\<open>json.Unmarshal\<close> into the target is a function of the standard library; it is the
  parameter \<open>unmarshal\<close>.\<close>

definition parseJSONResponse :: "(gostring \<Rightarrow> go_error + 'a) \<Rightarrow> gostring \<Rightarrow> go_error + 'a" where
  "parseJSONResponse unmarshal response =
     (let jsonStr = extractJSON response in
      case unmarshal jsonStr of
        Inl err \<Rightarrow> Inl (ErrorWrap (str ''failed to unmarshal JSON: '') err
                           (str ''\<newline>Response: '' @ response))
      | Inr target \<Rightarrow> Inr target)"

section \<open>Evaluation state machine (internal/services/evaluator.go)\<close>

record CVEvaluationResult =
  TechnicalSkillsScore :: rat
  ExperienceLevelScore :: rat
  AchievementsScore :: rat
  CulturalFitScore :: rat
  cv_WeightedAverage :: rat
  MatchRate :: rat
  cv_Feedback :: gostring

record ProjectEvaluationResult =
  CorrectnessScore :: rat
  CodeQualityScore :: rat
  ResilienceScore :: rat
  DocumentationScore :: rat
  CreativityScore :: rat
  pr_WeightedAverage :: rat
  pr_ProjectScore :: rat
  pr_Feedback :: gostring

record PDFContent =
  pdf_Text :: gostring
  PageCount :: int
  pdf_FilePath :: gostring

text \<open>The statements a run sends to the two stores, to tell their outcomes apart.\<close>

datatype repo_call =
  CallUpdateStatus | CallFindEvaluation | CallFindCVDocument | CallFindProjectDocument
  | CallUpdateError | CallUpdateResult

text \<open>
  The evaluator and its collaborators. The two repositories are the gorm ones above:
  \<open>docRepo\<close> is the table of documents, \<open>store_err\<close> and \<open>store_now\<close> give the database error
  and the clock of each statement. The other collaborators are interfaces; each method is
  the function from its arguments to what it returns. \<open>Unmarshal_CV\<close> and
  \<open>Unmarshal_Project\<close> are \<^verbatim>\<open>json.Unmarshal\<close> at the two result types.
\<close>

record evaluatorService =
  store_err :: "repo_call \<Rightarrow> go_error option"
  store_now :: "repo_call \<Rightarrow> nat"
  docRepo :: documents
  svc_GenerateEmbedding :: "go_context \<Rightarrow> gostring \<Rightarrow> go_error + rat list"
  svc_GenerateTextWithRetry :: "go_context \<Rightarrow> gostring \<Rightarrow> rat \<Rightarrow> int \<Rightarrow> go_error + gostring"
  SearchSimilar :: "go_context \<Rightarrow> rat list \<Rightarrow> gostring \<Rightarrow> int \<Rightarrow> go_error + SearchResult list"
  ExtractTextWithMetaData :: "gostring \<Rightarrow> go_error + PDFContent"
  Unmarshal_CV :: "gostring \<Rightarrow> go_error + CVEvaluationResult"
  Unmarshal_Project :: "gostring \<Rightarrow> go_error + ProjectEvaluationResult"
  maxRetries :: int

text \<open>The search loop of \<^verbatim>\<open>retrieveContext\<close>: a failed search is logged and skipped.\<close>

fun search_loop ::
  "evaluatorService \<Rightarrow> go_context \<Rightarrow> rat list \<Rightarrow> gostring list \<Rightarrow> SearchResult list
     \<Rightarrow> SearchResult list" where
  "search_loop e ctx embedding [] allResults = allResults"
| "search_loop e ctx embedding (docType # docTypes) allResults =
     (case SearchSimilar e ctx embedding docType 3 of
        Inl err \<Rightarrow> search_loop e ctx embedding docTypes allResults
      | Inr results \<Rightarrow> search_loop e ctx embedding docTypes (allResults @ results))"

definition retrieveContext ::
  "evaluatorService \<Rightarrow> go_context \<Rightarrow> gostring \<Rightarrow> gostring list \<Rightarrow> go_error + gostring" where
  "retrieveContext e ctx queryText docTypes =
     (case svc_GenerateEmbedding e ctx queryText of
        Inl err \<Rightarrow> Inl (ErrorWrap (str ''failed to generate query embedding: '') err [])
      | Inr embedding \<Rightarrow> Inr (FormatRAGContext (search_loop e ctx embedding docTypes [])))"

text \<open>Lines 114 to 118 and 121 to 125 of \<^verbatim>\<open>EvaluateCandidate\<close>: the context that goes on
  to the prompt builder; on an error of \<^verbatim>\<open>retrieveContext\<close> it is set to the empty
  string.\<close>

definition stage_context ::
  "evaluatorService \<Rightarrow> go_context \<Rightarrow> gostring \<Rightarrow> gostring list \<Rightarrow> gostring" where
  "stage_context e ctx queryText docTypes =
     (case retrieveContext e ctx queryText docTypes of
        Inl err \<Rightarrow> []
      | Inr context \<Rightarrow> context)"

definition cv_fallback :: CVEvaluationResult where
  "cv_fallback =
     \<lparr>TechnicalSkillsScore = 0, ExperienceLevelScore = 0, AchievementsScore = 0,
      CulturalFitScore = 0, cv_WeightedAverage = 0, MatchRate = 0,
      cv_Feedback =
        str ''Failed to evaluate CV due to API response issues. Please try again later.''\<rparr>"

definition project_fallback :: ProjectEvaluationResult where
  "project_fallback =
     \<lparr>CorrectnessScore = 0, CodeQualityScore = 0, ResilienceScore = 0, DocumentationScore = 0,
      CreativityScore = 0, pr_WeightedAverage = 0, pr_ProjectScore = 0,
      pr_Feedback =
        str ''Failed to evaluate project due to API response issues. Please try again later.''\<rparr>"

definition evaluateCV ::
  "evaluatorService \<Rightarrow> go_context \<Rightarrow> gostring \<Rightarrow> gostring \<Rightarrow> gostring
     \<Rightarrow> go_error + CVEvaluationResult" where
  "evaluateCV e ctx cvText context jobTitle =
     (let prompt = BuildCVEvaluationPrompt cvText context [] jobTitle in
      case svc_GenerateTextWithRetry e ctx prompt (3 / 10) (maxRetries e) of
        Inl err \<Rightarrow> Inl (ErrorWrap (str ''failed to generate CV evaluation: '') err [])
      | Inr response \<Rightarrow>
          if response = [] then Inr cv_fallback
          else (case parseJSONResponse (Unmarshal_CV e) response of
                  Inl err \<Rightarrow> Inl (ErrorWrap (str ''failed to parse CV evaluation response: '') err [])
                | Inr result \<Rightarrow> Inr result))"

definition evaluateProject ::
  "evaluatorService \<Rightarrow> go_context \<Rightarrow> gostring \<Rightarrow> gostring \<Rightarrow> go_error + ProjectEvaluationResult" where
  "evaluateProject e ctx projectText context =
     (let prompt = BuildProjectEvaluationPrompt projectText context [] in
      case svc_GenerateTextWithRetry e ctx prompt (3 / 10) (maxRetries e) of
        Inl err \<Rightarrow> Inl (ErrorWrap (str ''failed to generate project evaluation: '') err [])
      | Inr response \<Rightarrow>
          if response = [] then Inr project_fallback
          else (case parseJSONResponse (Unmarshal_Project e) response of
                  Inl err \<Rightarrow>
                    Inl (ErrorWrap (str ''failed to parse project evaluation response: '') err [])
                | Inr result \<Rightarrow> Inr result))"

definition generateSummary ::
  "evaluatorService \<Rightarrow> go_context \<Rightarrow> CVEvaluationResult \<Rightarrow> ProjectEvaluationResult \<Rightarrow> gostring
     \<Rightarrow> go_error + gostring" where
  "generateSummary e ctx cvResult projectResult jobTitle =
     (let prompt = BuildFinalSummaryPrompt (cv_Feedback cvResult) (pr_Feedback projectResult)
                     (MatchRate cvResult) (pr_ProjectScore projectResult) jobTitle in
      case svc_GenerateTextWithRetry e ctx prompt (1 / 2) (maxRetries e) of
        Inl err \<Rightarrow> Inl (ErrorWrap (str ''failed to generate summary: '') err [])
      | Inr summary \<Rightarrow> Inr (TrimSpace summary))"

text \<open>The statement \<^verbatim>\<open>e.evalRepo.UpdateError(evalID, msg)\<close> of \<^verbatim>\<open>EvaluateCandidate\<close>: the
  error it returns is dropped.\<close>

definition record_error :: "evaluatorService \<Rightarrow> evaluations \<Rightarrow> uuid \<Rightarrow> gostring \<Rightarrow> evaluations" where
  "record_error e db evalID msg =
     (case UpdateError db (store_err e CallUpdateError) (store_now e CallUpdateError) evalID msg of
        Inl err \<Rightarrow> db
      | Inr db' \<Rightarrow> db')"

text \<open>
  \<^verbatim>\<open>EvaluateCandidate\<close>: one run on the job \<open>evalID\<close>, from the table \<open>db\<close>. It returns the
  error of the run (\<open>None\<close> is nil) and the table the run leaves. The run is taken alone: no
  other worker or request writes the table meanwhile.
\<close>

definition EvaluateCandidate ::
  "evaluatorService \<Rightarrow> go_context \<Rightarrow> uuid \<Rightarrow> evaluations \<Rightarrow> go_error option \<times> evaluations" where
  "EvaluateCandidate e ctx evalID db =
     (case UpdateStatus db (store_err e CallUpdateStatus) (store_now e CallUpdateStatus) evalID
             StatusProcessing of
        Inl err \<Rightarrow> (Some (ErrorWrap (str ''failed to update status: '') err []), db)
      | Inr db1 \<Rightarrow>
     (case FindByID db1 (store_err e CallFindEvaluation) evalID of
        Inl err \<Rightarrow>
          (Some (ErrorWrap (str ''failed to get evaluation: '') err []),
           record_error e db1 evalID (Error err))
      | Inr evaluation \<Rightarrow>
     (case doc_FindByID (docRepo e) (store_err e CallFindCVDocument) (CVDocumentID evaluation) of
        Inl err \<Rightarrow>
          (Some (ErrorWrap (str ''failed to get CV document: '') err []),
           record_error e db1 evalID (str ''CV document not found: '' @ Error err))
      | Inr cvDoc \<Rightarrow>
     (case doc_FindByID (docRepo e) (store_err e CallFindProjectDocument)
             (ProjectDocumentID evaluation) of
        Inl err \<Rightarrow>
          (Some (ErrorWrap (str ''failed to get project document: '') err []),
           record_error e db1 evalID (str ''Project document not found: '' @ Error err))
      | Inr projectDoc \<Rightarrow>
     (case ExtractTextWithMetaData e (FilePath cvDoc) of
        Inl err \<Rightarrow>
          (Some (ErrorWrap (str ''failed to parse CV: '') err []),
           record_error e db1 evalID (str ''Failed to parse CV: '' @ Error err))
      | Inr cvContent \<Rightarrow>
     (case ExtractTextWithMetaData e (FilePath projectDoc) of
        Inl err \<Rightarrow>
          (Some (ErrorWrap (str ''failed to parse project report: '') err []),
           record_error e db1 evalID (str ''Failed to parse project report: '' @ Error err))
      | Inr projectContent \<Rightarrow>
     (let cvContext = stage_context e ctx (pdf_Text cvContent)
                        [str ''job_description'', str ''cv_rubric''];
          projectContext = stage_context e ctx (pdf_Text projectContent)
                             [str ''case_study'', str ''project_rubric'']
      in
     (case evaluateCV e ctx (pdf_Text cvContent) cvContext (JobTitle evaluation) of
        Inl err \<Rightarrow>
          (Some (ErrorWrap (str ''failed to evaluate CV: '') err []),
           record_error e db1 evalID (str ''Failed to evaluate CV: '' @ Error err))
      | Inr cvResult \<Rightarrow>
     (case evaluateProject e ctx (pdf_Text projectContent) projectContext of
        Inl err \<Rightarrow>
          (Some (ErrorWrap (str ''failed to evaluate project: '') err []),
           record_error e db1 evalID (str ''Failed to evaluate project: '' @ Error err))
      | Inr projectResult \<Rightarrow>
     (case generateSummary e ctx cvResult projectResult (JobTitle evaluation) of
        Inl err \<Rightarrow>
          (Some (ErrorWrap (str ''failed to generate summary: '') err []),
           record_error e db1 evalID (str ''Failed to generate summary: '' @ Error err))
      | Inr overallSummary \<Rightarrow>
     (let updateData =
            \<lparr>upd_CVMatchRate = Some (MatchRate cvResult),
             upd_CVFeedback = Some (cv_Feedback cvResult),
             upd_ProjectScore = Some (pr_ProjectScore projectResult),
             upd_ProjectFeedback = Some (pr_Feedback projectResult),
             upd_OverallSummary = Some overallSummary\<rparr>
      in
     (case UpdateResult db1 (store_err e CallUpdateResult) (store_now e CallUpdateResult) evalID
             updateData of
        Inl err \<Rightarrow> (Some (ErrorWrap (str ''failed to save results: '') err []), db1)
      | Inr db2 \<Rightarrow> (None, db2)))))))))))))"

section \<open>Text chunker (internal/services/chuncker.go)\<close>

text \<open>\<^verbatim>\<open>strings.Split(s, sep)\<close>: the pieces between the non-overlapping occurrences of
  \<open>sep\<close>, found from the left; an empty \<open>sep\<close> splits after every rune.\<close>

function split_loop :: "gostring \<Rightarrow> gostring \<Rightarrow> gostring \<Rightarrow> gostring list" where
  "split_loop s sep piece =
     (if s = [] then [piece]
      else if sep \<noteq> [] \<and> HasPrefix s sep then piece # split_loop (drop (length sep) s) sep []
      else split_loop (tl s) sep (piece @ [hd s]))"
  by pat_completeness auto
termination
  by (relation "measure (\<lambda>(s, sep, piece). length s)") auto

declare split_loop.simps [simp del]

definition Split :: "gostring \<Rightarrow> gostring \<Rightarrow> gostring list" where
  "Split s sep = (if sep = [] then map (\<lambda>c. [c]) s else split_loop s sep [])"

text \<open>\<^verbatim>\<open>strings.FieldsFunc(s, f)\<close>: the maximal runs of runes that do not satisfy \<open>f\<close>.\<close>

fun fields_loop :: "(rune \<Rightarrow> bool) \<Rightarrow> gostring \<Rightarrow> gostring \<Rightarrow> gostring list" where
  "fields_loop f [] field = (if field = [] then [] else [field])"
| "fields_loop f (r # s) field =
     (if f r then (if field = [] then [] else [field]) @ fields_loop f s []
      else fields_loop f s (field @ [r]))"

definition FieldsFunc :: "gostring \<Rightarrow> (rune \<Rightarrow> bool) \<Rightarrow> gostring list" where
  "FieldsFunc s f = fields_loop f s []"

text \<open>The loop of \<^verbatim>\<open>splitIntoSentences\<close> keeps the trimmed sentences that are not empty.\<close>

fun keep_sentences :: "gostring list \<Rightarrow> gostring list" where
  "keep_sentences [] = []"
| "keep_sentences (s0 # sentences) =
     (let s = TrimSpace s0 in
      if s \<noteq> [] then s # keep_sentences sentences else keep_sentences sentences)"

definition splitIntoSentences :: "gostring \<Rightarrow> gostring list" where
  "splitIntoSentences text =
     keep_sentences
       (FieldsFunc text (\<lambda>r. r = of_char CHR ''.'' \<or> r = of_char CHR ''!'' \<or> r = of_char CHR ''?''))"

definition getLastNChars :: "gostring \<Rightarrow> int \<Rightarrow> gostring" where
  "getLastNChars text n =
     (if n \<le> 0 then []
      else if int (length text) \<le> n then text
      else drop (nat (int (length text) - n)) text)"

text \<open>
  The state of the loops of \<^verbatim>\<open>ChunkText\<close> is the slice \<open>chunks\<close> and the builder
  \<open>currentChunk\<close>. \<open>add_unit\<close> is the body that the source has twice: lines 52 to 72 for a
  sentence, with the separator \<^verbatim>\<open>" "\<close> and the constant 1, and lines 76 to 96 for a
  paragraph, with the separator \<^verbatim>\<open>"\n\n"\<close> and the constant 2. \<^verbatim>\<open>currentChunk.Len()\<close> and
  \<^verbatim>\<open>len(sentence)\<close> count bytes.
\<close>

definition add_unit ::
  "int \<Rightarrow> int \<Rightarrow> gostring \<Rightarrow> int \<Rightarrow> gostring list \<times> gostring \<Rightarrow> gostring
     \<Rightarrow> gostring list \<times> gostring" where
  "add_unit maxChunkSize overlap sep sepLen state unit =
     (let (chunks, currentChunk) = state;
          (chunks1, current1) =
            (if int (len currentChunk) + int (len unit) + sepLen > maxChunkSize
                \<and> len currentChunk > 0
             then
               (let chunks' = chunks @ [currentChunk] in
                (chunks',
                 if length chunks' > 0 \<and> overlap > 0 then
                   (let overlapText = getLastNChars (last chunks') overlap in
                    overlapText @ (if overlapText \<noteq> [] then sep else []))
                 else []))
             else (chunks, currentChunk))
      in (chunks1, (if len current1 > 0 then current1 @ sep else current1) @ unit))"

fun sentence_loop ::
  "int \<Rightarrow> int \<Rightarrow> gostring list \<times> gostring \<Rightarrow> gostring list \<Rightarrow> gostring list \<times> gostring" where
  "sentence_loop maxChunkSize overlap state [] = state"
| "sentence_loop maxChunkSize overlap state (sentence0 # sentences) =
     (let sentence = TrimSpace sentence0 in
      if sentence = [] then sentence_loop maxChunkSize overlap state sentences
      else sentence_loop maxChunkSize overlap
             (add_unit maxChunkSize overlap (str '' '') 1 state sentence) sentences)"

fun paragraph_loop ::
  "int \<Rightarrow> int \<Rightarrow> gostring list \<times> gostring \<Rightarrow> gostring list \<Rightarrow> gostring list \<times> gostring" where
  "paragraph_loop maxChunkSize overlap state [] = state"
| "paragraph_loop maxChunkSize overlap state (para0 # paragraphs) =
     (let para = TrimSpace para0 in
      if para = [] then paragraph_loop maxChunkSize overlap state paragraphs
      else if int (RuneCountInString para) > maxChunkSize then
        paragraph_loop maxChunkSize overlap
          (sentence_loop maxChunkSize overlap state (splitIntoSentences para)) paragraphs
      else
        paragraph_loop maxChunkSize overlap
          (add_unit maxChunkSize overlap (str ''\<newline>\<newline>'') 2 state para) paragraphs)"

text \<open>The defaults of the first lines of \<^verbatim>\<open>ChunkText\<close>.\<close>

definition effective_max :: "int \<Rightarrow> int" where
  "effective_max maxChunkSize = (if maxChunkSize \<le> 0 then 1000 else maxChunkSize)"

definition effective_overlap :: "int \<Rightarrow> int \<Rightarrow> int" where
  "effective_overlap maxChunkSize overlap =
     (let overlap1 = (if overlap < 0 then 0 else overlap) in
      if overlap1 \<ge> effective_max maxChunkSize then effective_max maxChunkSize div 4
      else overlap1)"

definition ChunkText :: "gostring \<Rightarrow> int \<Rightarrow> int \<Rightarrow> gostring list" where
  "ChunkText text maxChunkSize0 overlap0 =
     (let maxChunkSize = effective_max maxChunkSize0;
          overlap = effective_overlap maxChunkSize0 overlap0;
          paragraphs = Split text (str ''\<newline>\<newline>'');
          (chunks, currentChunk) = paragraph_loop maxChunkSize overlap ([], []) paragraphs
      in if len currentChunk > 0 then chunks @ [currentChunk] else chunks)"

text \<open>
  The units of a text, in order: a trimmed paragraph that is not empty, or, for a
  paragraph of more than \<open>maxChunkSize\<close> runes, its trimmed sentences that are not empty.
  A unit carries the separator and the constant of its branch.
\<close>

datatype unit_kind = SentenceUnit | ParagraphUnit

fun separator :: "unit_kind \<Rightarrow> gostring" where
  "separator SentenceUnit = str '' ''"
| "separator ParagraphUnit = str ''\<newline>\<newline>''"

fun separator_len :: "unit_kind \<Rightarrow> int" where
  "separator_len SentenceUnit = 1"
| "separator_len ParagraphUnit = 2"

definition paragraph_units :: "int \<Rightarrow> gostring \<Rightarrow> (unit_kind \<times> gostring) list" where
  "paragraph_units maxChunkSize para0 =
     (let para = TrimSpace para0 in
      if para = [] then []
      else if int (RuneCountInString para) > maxChunkSize then
        map (Pair SentenceUnit) (filter (\<lambda>s. s \<noteq> []) (map TrimSpace (splitIntoSentences para)))
      else [(ParagraphUnit, para)])"

definition units :: "gostring \<Rightarrow> int \<Rightarrow> (unit_kind \<times> gostring) list" where
  "units text maxChunkSize0 =
     concat (map (paragraph_units (effective_max maxChunkSize0))
                 (Split text (str ''\<newline>\<newline>'')))"

text \<open>
  A chunk written from a group of consecutive units: the first unit alone when there is no
  overlap text, else the overlap text, the separator twice and the first unit; then every
  further unit after its separator. \<open>rebuild\<close> writes the chunks of a list of groups, each
  with the overlap text taken from the chunk before it.
\<close>

fun render :: "gostring \<Rightarrow> (unit_kind \<times> gostring) list \<Rightarrow> gostring" where
  "render overlapText [] = overlapText"
| "render overlapText ((k, u) # us) =
     (if overlapText = [] then u else overlapText @ separator k @ separator k @ u)
     @ concat (map (\<lambda>(k', u'). separator k' @ u') us)"

fun rebuild :: "int \<Rightarrow> gostring \<Rightarrow> (unit_kind \<times> gostring) list list \<Rightarrow> gostring list" where
  "rebuild overlap prev [] = []"
| "rebuild overlap prev (g # gs) =
     (let chunk = render (getLastNChars prev overlap) g in chunk # rebuild overlap chunk gs)"

section \<open>Job queue and worker pool (internal/services/worker.go)\<close>

text \<open>
  The pool is a set of goroutines over two channels, so it is a transition system. A state
  holds the stop channel (closed or not), the buffered job queue, the place of every
  worker loop and of the poller, the counter of the wait group and the place of the call of
  \<^verbatim>\<open>Stop\<close>. \<open>started_after_stop\<close> is a history variable: the jobs a worker received while
  the stop channel was closed.
\<close>

datatype worker_pc = Selecting | Running uuid | WorkerExited

datatype poller_pc = PollSelecting | Enqueueing "uuid list" | PollerExited

datatype stop_pc = NotCalled | Waiting | Returned

record pool =
  stopChan_closed :: bool
  jobQueue :: "uuid list"
  workers :: "worker_pc list"
  poller :: poller_pc
  wg :: nat
  stop_call :: stop_pc
  started_after_stop :: "uuid list"

text \<open>The pool when \<^verbatim>\<open>Start\<close> has returned: \<open>concurrency\<close> worker loops and the poller, each
  counted in the wait group, with the jobs \<open>queued\<close> in the channel.\<close>

definition after_Start :: "nat \<Rightarrow> uuid list \<Rightarrow> pool" where
  "after_Start concurrency queued =
     \<lparr>stopChan_closed = False, jobQueue = queued, workers = replicate concurrency Selecting,
      poller = PollSelecting, wg = concurrency + 1, stop_call = NotCalled,
      started_after_stop = []\<rparr>"

text \<open>
  One step of one goroutine. A \<^verbatim>\<open>select\<close> with several cases that can proceed takes any one
  of them (the language chooses at random), so a worker at its \<^verbatim>\<open>select\<close> may receive a job
  whether or not the stop channel is closed, and a sender in \<^verbatim>\<open>EnqueueJob\<close> may send
  whenever the queue, of capacity 100, has room. \<open>Worker_done\<close> is the return of
  \<^verbatim>\<open>EvaluateCandidate\<close>; \<open>Poller_tick\<close> is a tick with the jobs that \<^verbatim>\<open>FindPendingJobs\<close>
  returns (none when it fails); \<open>Caller_send\<close> is \<^verbatim>\<open>EnqueueJob\<close> called by a request handler.
\<close>

inductive step :: "pool \<Rightarrow> pool \<Rightarrow> bool" where
  Stop_close:
    "stop_call s = NotCalled \<Longrightarrow> step s (s\<lparr>stopChan_closed := True, stop_call := Waiting\<rparr>)"
| Stop_return:
    "stop_call s = Waiting \<Longrightarrow> wg s = 0 \<Longrightarrow> step s (s\<lparr>stop_call := Returned\<rparr>)"
| Worker_stop:
    "i < length (workers s) \<Longrightarrow> workers s ! i = Selecting \<Longrightarrow> stopChan_closed s \<Longrightarrow>
     step s (s\<lparr>workers := (workers s)[i := WorkerExited], wg := wg s - 1\<rparr>)"
| Worker_receive:
    "i < length (workers s) \<Longrightarrow> workers s ! i = Selecting \<Longrightarrow> jobQueue s = evalID # rest \<Longrightarrow>
     step s (s\<lparr>workers := (workers s)[i := Running evalID], jobQueue := rest,
               started_after_stop :=
                 (if stopChan_closed s then started_after_stop s @ [evalID]
                  else started_after_stop s)\<rparr>)"
| Worker_done:
    "i < length (workers s) \<Longrightarrow> workers s ! i = Running evalID \<Longrightarrow>
     step s (s\<lparr>workers := (workers s)[i := Selecting]\<rparr>)"
| Poller_stop:
    "poller s = PollSelecting \<Longrightarrow> stopChan_closed s \<Longrightarrow>
     step s (s\<lparr>poller := PollerExited, wg := wg s - 1\<rparr>)"
| Poller_tick:
    "poller s = PollSelecting \<Longrightarrow> length pendingJobs \<le> 10 \<Longrightarrow>
     step s (s\<lparr>poller := Enqueueing pendingJobs\<rparr>)"
| Poller_send:
    "poller s = Enqueueing (evalID # rest) \<Longrightarrow> length (jobQueue s) < 100 \<Longrightarrow>
     step s (s\<lparr>jobQueue := jobQueue s @ [evalID], poller := Enqueueing rest\<rparr>)"
| Poller_abandon:
    "poller s = Enqueueing (evalID # rest) \<Longrightarrow> stopChan_closed s \<Longrightarrow>
     step s (s\<lparr>poller := Enqueueing rest\<rparr>)"
| Poller_loop:
    "poller s = Enqueueing [] \<Longrightarrow> step s (s\<lparr>poller := PollSelecting\<rparr>)"
| Caller_send:
    "length (jobQueue s) < 100 \<Longrightarrow> step s (s\<lparr>jobQueue := jobQueue s @ [evalID]\<rparr>)"

text \<open>The goroutines of the pool that have not exited.\<close>

definition live :: "pool \<Rightarrow> nat" where
  "live s = length (filter (\<lambda>w. w \<noteq> WorkerExited) (workers s))
            + (if poller s = PollerExited then 0 else 1)"

definition pool_invariant :: "pool \<Rightarrow> bool" where
  "pool_invariant s = (wg s = live s \<and> (stop_call s = Returned \<longrightarrow> live s = 0))"

section \<open>Predicates used to state the properties\<close>




text \<open>
  The steps of a run before the two evaluations succeed: the job is in the table, every
  statement of the stores executes, both documents are found and both texts are extracted.
  \<open>cvContext_of\<close> and \<open>projectContext_of\<close> are the contexts the run retrieves for the two
  stages.
\<close>

definition run_prefix_ok ::
  "evaluatorService \<Rightarrow> evaluations \<Rightarrow> uuid \<Rightarrow> Evaluation \<Rightarrow> PDFContent \<Rightarrow> PDFContent \<Rightarrow> bool" where
  "run_prefix_ok e db evalID job cvContent projectContent =
     (db evalID = Some job \<and> (\<forall>c. store_err e c = None)
      \<and> (\<exists>cvDoc projectDoc.
            docRepo e (CVDocumentID job) = Some cvDoc
          \<and> docRepo e (ProjectDocumentID job) = Some projectDoc
          \<and> ExtractTextWithMetaData e (FilePath cvDoc) = Inr cvContent
          \<and> ExtractTextWithMetaData e (FilePath projectDoc) = Inr projectContent))"

definition cvContext_of :: "evaluatorService \<Rightarrow> go_context \<Rightarrow> PDFContent \<Rightarrow> gostring" where
  "cvContext_of e ctx cvContent =
     stage_context e ctx (pdf_Text cvContent) [str ''job_description'', str ''cv_rubric'']"

definition projectContext_of :: "evaluatorService \<Rightarrow> go_context \<Rightarrow> PDFContent \<Rightarrow> gostring" where
  "projectContext_of e ctx projectContent =
     stage_context e ctx (pdf_Text projectContent) [str ''case_study'', str ''project_rubric'']"


text \<open>
  Modelled from the spec: \<^verbatim>\<open>wrap_in_markdown\<close> is the wrapper of the extraction property
  of the specification; the repository has no such function. The payload is put in a
  \<^verbatim>\<open>json\<close> code fence, with prose before and after it.
\<close>

definition wrap_in_markdown :: "gostring \<Rightarrow> gostring \<Rightarrow> gostring \<Rightarrow> gostring" where
  "wrap_in_markdown before after json =
     before @ str ''```json\<newline>'' @ json @ str ''\<newline>```'' @ after"

text \<open>The first two lines of \<^verbatim>\<open>extractJSON\<close>: both fence markers are removed.\<close>

definition strip_fences :: "gostring \<Rightarrow> gostring" where
  "strip_fences s = ReplaceAll (ReplaceAll s (str ''```json'') []) (str ''```'') []"


text \<open>One step of the loops of \<^verbatim>\<open>ChunkText\<close> on a unit.\<close>

definition unit_step ::
  "int \<Rightarrow> int \<Rightarrow> gostring list \<times> gostring \<Rightarrow> unit_kind \<times> gostring \<Rightarrow> gostring list \<times> gostring" where
  "unit_step maxChunkSize overlap state ku =
     add_unit maxChunkSize overlap (separator (fst ku)) (separator_len (fst ku)) state (snd ku)"

text \<open>The state of the loop against a grouping of the units read so far: \<open>groups\<close> are the
  groups of the chunks that are closed, \<open>g\<close> is the group in the builder.\<close>

definition grouped ::
  "int \<Rightarrow> gostring list \<times> gostring \<Rightarrow> (unit_kind \<times> gostring) list list
     \<Rightarrow> (unit_kind \<times> gostring) list \<Rightarrow> bool" where
  "grouped ov state groups g =
     (fst state = rebuild ov [] groups \<and> [] \<notin> set groups
      \<and> (g = [] \<longrightarrow> snd state = [] \<and> fst state = [])
      \<and> (g \<noteq> [] \<longrightarrow> snd state \<noteq> []
            \<and> snd state = render (getLastNChars (last ([] # fst state)) ov) g))"



section \<open>Scenarios\<close>

text \<open>A client that fails twice and then answers, one that always fails, and the
  background context, which is never cancelled.\<close>

definition flaky_service :: geminiService where
  "flaky_service = \<lparr>GenerateContent = (\<lambda>prompt temperature k.
      if k < 3 then (None, Some (ErrorNew (str ''unavailable'')))
      else (Some \<lparr>Text = str ''ok'', Candidates = []\<rparr>, None))\<rparr>"

definition failing_service :: geminiService where
  "failing_service = \<lparr>GenerateContent = (\<lambda>prompt temperature k.
      (None, Some (ErrorNew (str ''unavailable''))))\<rparr>"

definition background :: go_context where
  "background = \<lparr>Done = (\<lambda>k. False), Err = ErrorNew (str ''context canceled'')\<rparr>"


text \<open>A job as the API creates it, a completed one and a failed one.\<close>

definition queued_job :: Evaluation where
  "queued_job =
     \<lparr>ID = 1, JobTitle = str ''Backend Engineer'', CVDocumentID = 10, ProjectDocumentID = 11,
      Status = StatusQueued, CVMatchRate = None, CVFeedback = None, ProjectScore = None,
      ProjectFeedback = None, OverallSummary = None, ErrorMessage = None,
      CreatedAt = 100, UpdatedAt = 100\<rparr>"




text \<open>The two documents of the job.\<close>

definition cv_doc :: Document where
  "cv_doc = \<lparr>doc_ID = 10, Filename = str ''cv.pdf'', OriginalFileName = str ''cv.pdf'',
             FileType = str ''cv'', FilePath = str ''uploads/cv.pdf'',
             doc_CreatedAt = 90, doc_UpdatedAt = 90\<rparr>"

definition project_doc :: Document where
  "project_doc = \<lparr>doc_ID = 11, Filename = str ''report.pdf'', OriginalFileName = str ''report.pdf'',
             FileType = str ''project_report'', FilePath = str ''uploads/report.pdf'',
             doc_CreatedAt = 91, doc_UpdatedAt = 91\<rparr>"

text \<open>An evaluator over both documents whose embedding call fails, whose searches find
  nothing, and whose generation returns an empty text for the two evaluation prompts
  (temperature 0.3) and a summary for the summary prompt (temperature 0.5).\<close>

definition degraded_evaluator :: evaluatorService where
  "degraded_evaluator =
     \<lparr>store_err = (\<lambda>c. None),
      store_now = (\<lambda>c. 200),
      docRepo = Map.empty(10 \<mapsto> cv_doc, 11 \<mapsto> project_doc),
      svc_GenerateEmbedding = (\<lambda>ctx text. Inl (ErrorNew (str ''quota exceeded''))),
      svc_GenerateTextWithRetry =
        (\<lambda>ctx prompt temperature n. if temperature = 1 / 2 then Inr (str '' Hire. '') else Inr []),
      SearchSimilar = (\<lambda>ctx embedding docType limit. Inr []),
      ExtractTextWithMetaData =
        (\<lambda>path. Inr \<lparr>pdf_Text = str ''--- Page 1 ---'', PageCount = 1, pdf_FilePath = path\<rparr>),
      Unmarshal_CV = (\<lambda>s. Inl (ErrorNew (str ''unexpected end of JSON input''))),
      Unmarshal_Project = (\<lambda>s. Inl (ErrorNew (str ''unexpected end of JSON input''))),
      maxRetries = 3\<rparr>"

text \<open>A working embedding with searches that find nothing.\<close>

definition no_hits_evaluator :: evaluatorService where
  "no_hits_evaluator =
     degraded_evaluator\<lparr>svc_GenerateEmbedding := (\<lambda>ctx text. Inr [1 / 2, 1 / 4])\<rparr>"



definition gemini_backed :: "geminiService \<Rightarrow> evaluatorService" where
  "gemini_backed g = degraded_evaluator\<lparr>svc_GenerateTextWithRetry := GenerateTextWithRetry g\<rparr>"

definition page_one :: "gostring \<Rightarrow> PDFContent" where
  "page_one path = \<lparr>pdf_Text = str ''--- Page 1 ---'', PageCount = 1, pdf_FilePath = path\<rparr>"

text \<open>A response with no text and one candidate with content: the fallback rendering.\<close>

definition textless_service :: geminiService where
  "textless_service = \<lparr>GenerateContent = (\<lambda>prompt temperature k.
      (Some \<lparr>Text = [], Candidates = [\<lparr>Content = Some \<lparr>Parts = str ''[]'', Role = str ''model''\<rparr>\<rparr>]\<rparr>,
       None))\<rparr>"


text \<open>A response of the model: a payload, and prose around it.\<close>

definition tagged_payload :: gostring where
  \<open>tagged_payload = str ''{"match_rate": 0.8, "feedback": "ok"}''\<close>

definition prose_before :: gostring where
  "prose_before = str ''Here is the evaluation:\<newline>''"

definition prose_after :: gostring where
  "prose_after = str ''\<newline>Let me know if you need more.''"


text \<open>A pool of one worker with one job in the queue: the state when \<^verbatim>\<open>Stop\<close> has closed
  the channel, the state when the worker has then received the job, and the state when
  \<^verbatim>\<open>Stop\<close> has returned.\<close>

definition stopping_pool :: pool where
  "stopping_pool =
     \<lparr>stopChan_closed = True, jobQueue = [7], workers = [Selecting],
      poller = PollSelecting, wg = 2, stop_call = Waiting, started_after_stop = []\<rparr>"

definition late_start_pool :: pool where
  "late_start_pool =
     \<lparr>stopChan_closed = True, jobQueue = [], workers = [Running 7],
      poller = PollSelecting, wg = 2, stop_call = Waiting, started_after_stop = [7]\<rparr>"

definition stopped_pool :: pool where
  "stopped_pool =
     \<lparr>stopChan_closed = True, jobQueue = [], workers = [WorkerExited],
      poller = PollerExited, wg = 0, stop_call = Returned, started_after_stop = [7]\<rparr>"


section \<open>Verification: retry wrapper\<close>

lemma retry_loop_success:
  "attempt \<le> k \<Longrightarrow> k \<le> N \<Longrightarrow> GenerateText g p t k = Inr r \<Longrightarrow>
   (\<forall>j. attempt \<le> j \<and> j < k \<longrightarrow> isl (GenerateText g p t j)) \<Longrightarrow>
   (\<forall>j. \<not> Done ctx j) \<Longrightarrow>
   retry_loop g ctx p t N attempt lastErr = (Inr r, k)"
proof (induction g ctx p t N attempt lastErr rule: retry_loop.induct)
  case (1 g ctx prompt temperature maxRetries attempt lastErr)
  show ?case
  proof (cases "attempt = k")
    case True
    with "1.prems" show ?thesis by (subst retry_loop.simps) simp
  next
    case False
    with "1.prems" have lt: "attempt < k" by simp
    with "1.prems" have "isl (GenerateText g prompt temperature attempt)" by blast
    then obtain e where e: "GenerateText g prompt temperature attempt = Inl e"
      by (cases "GenerateText g prompt temperature attempt") auto
    have le: "attempt \<le> maxRetries" using lt "1.prems" by simp
    have nd: "\<not> Done ctx attempt" using "1.prems" by simp
    have "retry_loop g ctx prompt temperature maxRetries (attempt + 1) (Some e) = (Inr r, k)"
      using "1.IH"[OF le e nd] lt "1.prems" by simp
    then show ?thesis using e le nd by (subst retry_loop.simps) simp
  qed
qed

lemma retry_loop_exhausted:
  "attempt \<le> N \<Longrightarrow>
   (\<forall>j. attempt \<le> j \<and> j \<le> N \<longrightarrow> isl (GenerateText g p t j)) \<Longrightarrow>
   (\<forall>j. \<not> Done ctx j) \<Longrightarrow>
   retry_loop g ctx p t N attempt lastErr =
     (Inl (ErrorWrap (str ''failed after '' @ Itoa N @ str '' attempts: '')
                     (projl (GenerateText g p t N)) []), N)"
proof (induction g ctx p t N attempt lastErr rule: retry_loop.induct)
  case (1 g ctx prompt temperature maxRetries attempt lastErr)
  from "1.prems" have "isl (GenerateText g prompt temperature attempt)" by simp
  then obtain e where e: "GenerateText g prompt temperature attempt = Inl e"
    by (cases "GenerateText g prompt temperature attempt") auto
  have le: "attempt \<le> maxRetries" using "1.prems" by simp
  have nd: "\<not> Done ctx attempt" using "1.prems" by simp
  show ?case
  proof (cases "attempt = maxRetries")
    case True
    have "retry_loop g ctx prompt temperature maxRetries (attempt + 1) (Some e) =
          (Inl (ErrorWrap (str ''failed after '' @ Itoa maxRetries @ str '' attempts: '') e []), maxRetries)"
      using True by (subst retry_loop.simps) simp
    then show ?thesis using e le nd True by (subst retry_loop.simps) simp
  next
    case False
    then have "attempt + 1 \<le> maxRetries" using le by simp
    then have "retry_loop g ctx prompt temperature maxRetries (attempt + 1) (Some e) =
      (Inl (ErrorWrap (str ''failed after '' @ Itoa maxRetries @ str '' attempts: '')
                     (projl (GenerateText g prompt temperature maxRetries)) []), maxRetries)"
      using "1.IH"[OF le e nd] "1.prems" by simp
    then show ?thesis using e le nd by (subst retry_loop.simps) simp
  qed
qed


text \<open>
  Claim C3. For a budget \<open>N \<ge> 1\<close> and a context that is not cancelled,
  \<^verbatim>\<open>GenerateTextWithRetry\<close> returns the result of the first \<^verbatim>\<open>GenerateText\<close> call that
  succeeds, having made exactly that many calls; when all \<open>N\<close> calls fail it has made
  exactly \<open>N\<close> calls and returns an error that wraps the error of the last one.
\<close>

theorem GenerateTextWithRetry_first_success_or_exhausted:
  assumes "1 \<le> N" and "\<forall>j. \<not> Done ctx j"
  shows "(\<forall>k r. 1 \<le> k \<and> k \<le> N \<and> GenerateText g p t k = Inr r
                 \<and> (\<forall>j. 1 \<le> j \<and> j < k \<longrightarrow> isl (GenerateText g p t j))
            \<longrightarrow> GenerateTextWithRetry g ctx p t N = Inr r \<and> attempts_made g ctx p t N = k)
       \<and> ((\<forall>j. 1 \<le> j \<and> j \<le> N \<longrightarrow> isl (GenerateText g p t j))
            \<longrightarrow> (\<exists>e. GenerateText g p t N = Inl e
                     \<and> GenerateTextWithRetry g ctx p t N =
                         Inl (ErrorWrap (str ''failed after '' @ Itoa N @ str '' attempts: '') e [])
                     \<and> Unwrap (projl (GenerateTextWithRetry g ctx p t N)) = Some e)
                \<and> attempts_made g ctx p t N = N)"
proof (intro conjI allI impI)
  fix k r
  assume h: "1 \<le> k \<and> k \<le> N \<and> GenerateText g p t k = Inr r
             \<and> (\<forall>j. 1 \<le> j \<and> j < k \<longrightarrow> isl (GenerateText g p t j))"
  then have "retry_loop g ctx p t N 1 None = (Inr r, k)"
    using assms(2) by (intro retry_loop_success) auto
  then show "GenerateTextWithRetry g ctx p t N = Inr r" and "attempts_made g ctx p t N = k"
    by (simp_all add: GenerateTextWithRetry_def attempts_made_def)
next
  assume h: "\<forall>j. 1 \<le> j \<and> j \<le> N \<longrightarrow> isl (GenerateText g p t j)"
  have r: "retry_loop g ctx p t N 1 None =
     (Inl (ErrorWrap (str ''failed after '' @ Itoa N @ str '' attempts: '')
                     (projl (GenerateText g p t N)) []), N)"
    using assms h by (intro retry_loop_exhausted) auto
  from h assms(1) have "isl (GenerateText g p t N)" by simp
  then obtain e where e: "GenerateText g p t N = Inl e"
    by (cases "GenerateText g p t N") auto
  show "\<exists>e. GenerateText g p t N = Inl e
           \<and> GenerateTextWithRetry g ctx p t N =
               Inl (ErrorWrap (str ''failed after '' @ Itoa N @ str '' attempts: '') e [])
           \<and> Unwrap (projl (GenerateTextWithRetry g ctx p t N)) = Some e"
    using r e by (simp add: GenerateTextWithRetry_def)
  show "attempts_made g ctx p t N = N"
    using r by (simp add: attempts_made_def)
qed

text \<open>The two scenarios of the specification, on a budget of three attempts.\<close>

lemma flaky_calls:
  "GenerateText flaky_service p t 1 = Inl (ErrorWrap (str ''failed to generate text: '') (ErrorNew (str ''unavailable'')) [])"
  "GenerateText flaky_service p t 2 = Inl (ErrorWrap (str ''failed to generate text: '') (ErrorNew (str ''unavailable'')) [])"
  "GenerateText flaky_service p t 3 = Inr (str ''ok'')"
  by (simp_all add: GenerateText_def flaky_service_def str_def)

lemma flaky_before_3: "1 \<le> j \<and> j < 3 \<longrightarrow> isl (GenerateText flaky_service p t j)"
  by (simp add: GenerateText_def flaky_service_def)

lemma failing_calls:
  "GenerateText failing_service p t j = Inl (ErrorWrap (str ''failed to generate text: '') (ErrorNew (str ''unavailable'')) [])"
  by (simp add: GenerateText_def failing_service_def)

theorem GenerateTextWithRetry_first_success_or_exhausted_witness:
  "(1::int) \<le> 3 \<and> (\<forall>j. \<not> Done background j)
   \<and> GenerateTextWithRetry flaky_service background [] 0 3 = Inr (str ''ok'')
   \<and> attempts_made flaky_service background [] 0 3 = 3
   \<and> GenerateTextWithRetry failing_service background [] 0 3 =
       Inl (ErrorWrap (str ''failed after 3 attempts: '')
             (ErrorWrap (str ''failed to generate text: '') (ErrorNew (str ''unavailable'')) []) [])
   \<and> attempts_made failing_service background [] 0 3 = 3"
proof -
  have n: "(1::int) \<le> 3" by simp
  have c: "\<forall>j. \<not> Done background j" by (simp add: background_def)
  have i3: "Itoa 3 = str ''3''" by (simp add: Itoa_def str_def)
  note a = GenerateTextWithRetry_first_success_or_exhausted [OF n c, of flaky_service "[]" 0]
  note b = GenerateTextWithRetry_first_success_or_exhausted [OF n c, of failing_service "[]" 0]
  from a have "GenerateTextWithRetry flaky_service background [] 0 3 = Inr (str ''ok'')
      \<and> attempts_made flaky_service background [] 0 3 = 3"
    using flaky_calls(3) flaky_before_3 by (elim conjE allE[of _ 3] allE[of _ "str ''ok''"]) simp
  moreover from b have "GenerateTextWithRetry failing_service background [] 0 3 =
       Inl (ErrorWrap (str ''failed after 3 attempts: '')
             (ErrorWrap (str ''failed to generate text: '') (ErrorNew (str ''unavailable'')) []) [])
   \<and> attempts_made failing_service background [] 0 3 = 3"
    using failing_calls i3 by (simp add: str_def)
  ultimately show ?thesis using n c by simp
qed


section \<open>Verification: what the generative-text client returns\<close>

lemma Sprintf_v_nonempty: "Sprintf_v c \<noteq> []"
  by (simp add: Sprintf_v_def str_def)

lemma Join_nonempty: "xs \<noteq> [] \<Longrightarrow> hd xs \<noteq> [] \<Longrightarrow> Join xs sep \<noteq> []"
  by (induction xs sep rule: Join.induct) auto

lemma textParts_hd_nonempty:
  "concat (map (\<lambda>candidate. case Content candidate of None \<Rightarrow> [] | Some c \<Rightarrow> [Sprintf_v c]) cs) \<noteq> []
   \<Longrightarrow> hd (concat (map (\<lambda>candidate. case Content candidate of None \<Rightarrow> [] | Some c \<Rightarrow> [Sprintf_v c]) cs)) \<noteq> []"
  by (induction cs) (auto simp: Sprintf_v_nonempty split: option.splits)

lemma GenerateText_nonempty: "GenerateText g p t k \<noteq> Inr []"
  by (auto simp: GenerateText_def Let_def Join_nonempty textParts_hd_nonempty
           split: prod.splits option.splits)

lemma retry_loop_Inr:
  "retry_loop g ctx p t N attempt lastErr = (Inr r, n) \<Longrightarrow> \<exists>k. GenerateText g p t k = Inr r"
proof (induction g ctx p t N attempt lastErr rule: retry_loop.induct)
  case (1 g ctx prompt temperature maxRetries attempt lastErr)
  show ?case
  proof (cases "attempt \<le> maxRetries")
    case False
    with "1.prems" show ?thesis by (subst (asm) retry_loop.simps) simp
  next
    case le: True
    show ?thesis
    proof (cases "GenerateText g prompt temperature attempt")
      case (Inr res)
      with le "1.prems" have "res = r" by (subst (asm) retry_loop.simps) simp
      with Inr show ?thesis by blast
    next
      case (Inl err)
      show ?thesis
      proof (cases "Done ctx attempt")
        case True
        with le Inl "1.prems" show ?thesis by (subst (asm) retry_loop.simps) simp
      next
        case False
        with le Inl "1.prems"
        have "retry_loop g ctx prompt temperature maxRetries (attempt + 1) (Some err) = (Inr r, n)"
          by (subst (asm) retry_loop.simps) simp
        then show ?thesis by (rule "1.IH"[OF le Inl False])
      qed
    qed
  qed
qed

lemma GenerateTextWithRetry_nonempty: "GenerateTextWithRetry g ctx p t N \<noteq> Inr []"
proof
  assume a: "GenerateTextWithRetry g ctx p t N = Inr []"
  then have "retry_loop g ctx p t N 1 None = (Inr [], snd (retry_loop g ctx p t N 1 None))"
    unfolding GenerateTextWithRetry_def by (metis prod.collapse)
  then have "\<exists>k. GenerateText g p t k = Inr []" by (rule retry_loop_Inr)
  then obtain k where "GenerateText g p t k = Inr []" ..
  then show False using GenerateText_nonempty[of g p t k] by simp
qed


section \<open>Verification: the invariant of a job\<close>











section \<open>Verification: the retrieved context\<close>

lemma FormatRAGContext_nonempty: "FormatRAGContext results \<noteq> []"
proof (cases results)
  case Nil
  then show ?thesis by (simp add: FormatRAGContext_def str_def)
next
  case (Cons r rs)
  have "hd (format_parts 0 (r # rs)) \<noteq> []" by (simp add: str_def)
  moreover have "format_parts 0 (r # rs) \<noteq> []" by simp
  ultimately have "Join (format_parts 0 (r # rs)) (str ''\<newline>\<newline>'') \<noteq> []"
    by (rule Join_nonempty[rotated])
  with Cons show ?thesis by (simp add: FormatRAGContext_def)
qed

lemma search_loop_no_results:
  "\<forall>docType \<in> set docTypes. SearchSimilar e ctx embedding docType 3 \<in> range Inl \<union> {Inr []}
   \<Longrightarrow> search_loop e ctx embedding docTypes allResults = allResults"
  by (induction docTypes arbitrary: allResults) (auto split: sum.splits)

text \<open>
  Claim C2, as amended. The context that a stage hands to the prompt builder is empty
  exactly when embedding the query fails. When the embedding succeeds and every category
  search fails or finds nothing, the context is the sentence
  \<^verbatim>\<open>No relevant context found.\<close>
\<close>

theorem stage_context_empty_iff_embedding_fails:
  "(stage_context e ctx queryText docTypes = [] \<longleftrightarrow> isl (svc_GenerateEmbedding e ctx queryText))
   \<and> (\<forall>embedding. svc_GenerateEmbedding e ctx queryText = Inr embedding
         \<and> (\<forall>docType \<in> set docTypes.
               SearchSimilar e ctx embedding docType 3 \<in> range Inl \<union> {Inr []})
        \<longrightarrow> stage_context e ctx queryText docTypes = str ''No relevant context found.'')"
proof (intro conjI allI impI)
  show "stage_context e ctx queryText docTypes = [] \<longleftrightarrow> isl (svc_GenerateEmbedding e ctx queryText)"
    by (cases "svc_GenerateEmbedding e ctx queryText")
       (simp_all add: stage_context_def retrieveContext_def FormatRAGContext_nonempty)
next
  fix embedding
  assume h: "svc_GenerateEmbedding e ctx queryText = Inr embedding
         \<and> (\<forall>docType \<in> set docTypes.
               SearchSimilar e ctx embedding docType 3 \<in> range Inl \<union> {Inr []})"
  then have "search_loop e ctx embedding docTypes [] = []"
    by (simp add: search_loop_no_results)
  with h show "stage_context e ctx queryText docTypes = str ''No relevant context found.''"
    by (simp add: stage_context_def retrieveContext_def FormatRAGContext_def)
qed

text \<open>
  Claim C2 as stated fails on the path it names: when embedding the query fails, the
  context of the stage is the empty string.
\<close>

theorem stage_context_empty_on_embedding_failure:
  "stage_context degraded_evaluator background (str ''--- Page 1 ---'')
     [str ''job_description'', str ''cv_rubric''] = []"
  by (simp add: stage_context_def retrieveContext_def degraded_evaluator_def)

text \<open>The amended claim where the embedding works and the two searches find nothing.\<close>

theorem stage_context_empty_iff_embedding_fails_witness:
  "stage_context no_hits_evaluator background (str ''--- Page 1 ---'')
     [str ''job_description'', str ''cv_rubric''] = str ''No relevant context found.''
   \<and> stage_context no_hits_evaluator background (str ''--- Page 1 ---'')
     [str ''job_description'', str ''cv_rubric''] \<noteq> []"
proof -
  have emb: "svc_GenerateEmbedding no_hits_evaluator background (str ''--- Page 1 ---'')
               = Inr [1 / 2, 1 / 4]"
    by (simp add: no_hits_evaluator_def degraded_evaluator_def)
  have srch: "\<forall>docType \<in> set [str ''job_description'', str ''cv_rubric''].
               SearchSimilar no_hits_evaluator background [1 / 2, 1 / 4] docType 3
                 \<in> range Inl \<union> {Inr []}"
    by (simp add: no_hits_evaluator_def degraded_evaluator_def)
  note t = stage_context_empty_iff_embedding_fails
             [of no_hits_evaluator background "str ''--- Page 1 ---''"
                 "[str ''job_description'', str ''cv_rubric'']"]
  from t emb srch
  have a: "stage_context no_hits_evaluator background (str ''--- Page 1 ---'')
            [str ''job_description'', str ''cv_rubric''] = str ''No relevant context found.''"
    by blast
  from t emb
  have b: "stage_context no_hits_evaluator background (str ''--- Page 1 ---'')
            [str ''job_description'', str ''cv_rubric''] \<noteq> []"
    by simp
  from a b show ?thesis by simp
qed


section \<open>Verification: document lookup failure\<close>




section \<open>Verification: empty generation output\<close>

lemma evaluateCV_empty:
  "svc_GenerateTextWithRetry e ctx (BuildCVEvaluationPrompt cvText ragContext [] jobTitle) (3 / 10)
     (maxRetries e) = Inr []
   \<Longrightarrow> evaluateCV e ctx cvText ragContext jobTitle = Inr cv_fallback"
  by (simp add: evaluateCV_def)

lemma evaluateProject_empty:
  "svc_GenerateTextWithRetry e ctx (BuildProjectEvaluationPrompt projectText ragContext []) (3 / 10)
     (maxRetries e) = Inr []
   \<Longrightarrow> evaluateProject e ctx projectText ragContext = Inr project_fallback"
  by (simp add: evaluateProject_def)

lemma run_completes:
  assumes pre: "run_prefix_ok e db evalID job cvContent projectContent"
    and cv: "evaluateCV e ctx (pdf_Text cvContent) (cvContext_of e ctx cvContent) (JobTitle job)
               = Inr cvResult"
    and pr: "evaluateProject e ctx (pdf_Text projectContent) (projectContext_of e ctx projectContent)
               = Inr projectResult"
    and su: "generateSummary e ctx cvResult projectResult (JobTitle job) = Inr overallSummary"
  shows "\<exists>job'. EvaluateCandidate e ctx evalID db = (None, db(evalID \<mapsto> job'))
           \<and> Status job' = StatusCompleted
           \<and> CVMatchRate job' = Some (MatchRate cvResult)
           \<and> CVFeedback job' = Some (cv_Feedback cvResult)
           \<and> ProjectScore job' = Some (pr_ProjectScore projectResult)
           \<and> ProjectFeedback job' = Some (pr_Feedback projectResult)
           \<and> OverallSummary job' = Some overallSummary"
proof -
  from pre obtain cvDoc projectDoc where
      job: "db evalID = Some job" and ok: "\<And>c. store_err e c = None"
    and d1: "docRepo e (CVDocumentID job) = Some cvDoc"
    and d2: "docRepo e (ProjectDocumentID job) = Some projectDoc"
    and p1: "ExtractTextWithMetaData e (FilePath cvDoc) = Inr cvContent"
    and p2: "ExtractTextWithMetaData e (FilePath projectDoc) = Inr projectContent"
    unfolding run_prefix_ok_def by blast
  let ?job1 = "job\<lparr>Status := StatusProcessing, UpdatedAt := store_now e CallUpdateStatus\<rparr>"
  let ?db1 = "db(evalID \<mapsto> ?job1)"
  let ?data = "\<lparr>upd_CVMatchRate = Some (MatchRate cvResult),
             upd_CVFeedback = Some (cv_Feedback cvResult),
             upd_ProjectScore = Some (pr_ProjectScore projectResult),
             upd_ProjectFeedback = Some (pr_Feedback projectResult),
             upd_OverallSummary = Some overallSummary\<rparr>"
  let ?job2 = "apply_updates ?data (store_now e CallUpdateResult) ?job1"
  have us: "UpdateStatus db (store_err e CallUpdateStatus) (store_now e CallUpdateStatus) evalID
              StatusProcessing = Inr ?db1"
    using job ok by (simp add: UpdateStatus_def)
  have fb: "FindByID ?db1 (store_err e CallFindEvaluation) evalID = Inr ?job1"
    using ok by (simp add: FindByID_def)
  have f1: "doc_FindByID (docRepo e) (store_err e CallFindCVDocument) (CVDocumentID ?job1) = Inr cvDoc"
    using ok d1 by (simp add: doc_FindByID_def)
  have f2: "doc_FindByID (docRepo e) (store_err e CallFindProjectDocument) (ProjectDocumentID ?job1)
              = Inr projectDoc"
    using ok d2 by (simp add: doc_FindByID_def)
  have ur: "UpdateResult ?db1 (store_err e CallUpdateResult) (store_now e CallUpdateResult) evalID
              ?data = Inr (db(evalID \<mapsto> ?job2))"
    using ok by (simp add: UpdateResult_def)
  have cv': "evaluateCV e ctx (pdf_Text cvContent)
               (stage_context e ctx (pdf_Text cvContent) [str ''job_description'', str ''cv_rubric''])
               (JobTitle ?job1) = Inr cvResult"
    using cv by (simp add: cvContext_of_def)
  have pr': "evaluateProject e ctx (pdf_Text projectContent)
               (stage_context e ctx (pdf_Text projectContent)
                  [str ''case_study'', str ''project_rubric'']) = Inr projectResult"
    using pr by (simp add: projectContext_of_def)
  have su': "generateSummary e ctx cvResult projectResult (JobTitle ?job1) = Inr overallSummary"
    using su by simp
  have "EvaluateCandidate e ctx evalID db = (None, db(evalID \<mapsto> ?job2))"
    unfolding EvaluateCandidate_def
    by (simp only: us fb f1 f2 p1 p2 cv' pr' su' ur Let_def sum.case)
  moreover have "Status ?job2 = StatusCompleted" "CVMatchRate ?job2 = Some (MatchRate cvResult)"
    "CVFeedback ?job2 = Some (cv_Feedback cvResult)"
    "ProjectScore ?job2 = Some (pr_ProjectScore projectResult)"
    "ProjectFeedback ?job2 = Some (pr_Feedback projectResult)"
    "OverallSummary ?job2 = Some overallSummary"
    by (simp_all add: apply_updates_def)
  ultimately show ?thesis by blast
qed

text \<open>
  Claim C4. When the generation call of the CV stage (of the project stage) succeeds with
  an empty string, the stage does not fail: its result is the fixed result with every
  score zero and an explanatory feedback. The run goes on: when the other stage and the
  summary succeed, the run returns no error and leaves the job Completed with the zero
  score and the explanatory feedback of the degraded stage.
\<close>

theorem empty_generation_falls_back:
  "(svc_GenerateTextWithRetry e ctx (BuildCVEvaluationPrompt cvText ragContext [] jobTitle) (3 / 10)
       (maxRetries e) = Inr []
     \<longrightarrow> evaluateCV e ctx cvText ragContext jobTitle = Inr cv_fallback)
   \<and> (svc_GenerateTextWithRetry e ctx (BuildProjectEvaluationPrompt projectText ragContext [])
         (3 / 10) (maxRetries e) = Inr []
     \<longrightarrow> evaluateProject e ctx projectText ragContext = Inr project_fallback)
   \<and> TechnicalSkillsScore cv_fallback = 0 \<and> ExperienceLevelScore cv_fallback = 0
   \<and> AchievementsScore cv_fallback = 0 \<and> CulturalFitScore cv_fallback = 0
   \<and> cv_WeightedAverage cv_fallback = 0 \<and> MatchRate cv_fallback = 0
   \<and> cv_Feedback cv_fallback \<noteq> []
   \<and> CorrectnessScore project_fallback = 0 \<and> CodeQualityScore project_fallback = 0
   \<and> ResilienceScore project_fallback = 0 \<and> DocumentationScore project_fallback = 0
   \<and> CreativityScore project_fallback = 0 \<and> pr_WeightedAverage project_fallback = 0
   \<and> pr_ProjectScore project_fallback = 0 \<and> pr_Feedback project_fallback \<noteq> []
   \<and> (run_prefix_ok e db evalID job cvContent projectContent
       \<and> svc_GenerateTextWithRetry e ctx
            (BuildCVEvaluationPrompt (pdf_Text cvContent) (cvContext_of e ctx cvContent) []
               (JobTitle job)) (3 / 10) (maxRetries e) = Inr []
       \<and> evaluateProject e ctx (pdf_Text projectContent) (projectContext_of e ctx projectContent)
            = Inr projectResult
       \<and> generateSummary e ctx cv_fallback projectResult (JobTitle job) = Inr overallSummary
     \<longrightarrow> (\<exists>job'. EvaluateCandidate e ctx evalID db = (None, db(evalID \<mapsto> job'))
              \<and> Status job' = StatusCompleted
              \<and> CVMatchRate job' = Some 0
              \<and> CVFeedback job' = Some (cv_Feedback cv_fallback)
              \<and> OverallSummary job' = Some overallSummary))
   \<and> (run_prefix_ok e db evalID job cvContent projectContent
       \<and> evaluateCV e ctx (pdf_Text cvContent) (cvContext_of e ctx cvContent) (JobTitle job)
            = Inr cvResult
       \<and> svc_GenerateTextWithRetry e ctx
            (BuildProjectEvaluationPrompt (pdf_Text projectContent)
               (projectContext_of e ctx projectContent) []) (3 / 10) (maxRetries e) = Inr []
       \<and> generateSummary e ctx cvResult project_fallback (JobTitle job) = Inr overallSummary
     \<longrightarrow> (\<exists>job'. EvaluateCandidate e ctx evalID db = (None, db(evalID \<mapsto> job'))
              \<and> Status job' = StatusCompleted
              \<and> ProjectScore job' = Some 0
              \<and> ProjectFeedback job' = Some (pr_Feedback project_fallback)
              \<and> OverallSummary job' = Some overallSummary))"
proof -
  have a: "svc_GenerateTextWithRetry e ctx (BuildCVEvaluationPrompt cvText ragContext [] jobTitle)
             (3 / 10) (maxRetries e) = Inr []
     \<longrightarrow> evaluateCV e ctx cvText ragContext jobTitle = Inr cv_fallback"
    by (simp add: evaluateCV_empty)
  have b: "svc_GenerateTextWithRetry e ctx (BuildProjectEvaluationPrompt projectText ragContext [])
         (3 / 10) (maxRetries e) = Inr []
     \<longrightarrow> evaluateProject e ctx projectText ragContext = Inr project_fallback"
    by (simp add: evaluateProject_empty)
  have c: "TechnicalSkillsScore cv_fallback = 0 \<and> ExperienceLevelScore cv_fallback = 0
   \<and> AchievementsScore cv_fallback = 0 \<and> CulturalFitScore cv_fallback = 0
   \<and> cv_WeightedAverage cv_fallback = 0 \<and> MatchRate cv_fallback = 0
   \<and> cv_Feedback cv_fallback \<noteq> []"
    by (simp add: cv_fallback_def str_def)
  have d: "CorrectnessScore project_fallback = 0 \<and> CodeQualityScore project_fallback = 0
   \<and> ResilienceScore project_fallback = 0 \<and> DocumentationScore project_fallback = 0
   \<and> CreativityScore project_fallback = 0 \<and> pr_WeightedAverage project_fallback = 0
   \<and> pr_ProjectScore project_fallback = 0 \<and> pr_Feedback project_fallback \<noteq> []"
    by (simp add: project_fallback_def str_def)
  have m0: "MatchRate cv_fallback = 0" "pr_ProjectScore project_fallback = 0"
    by (simp_all add: cv_fallback_def project_fallback_def)
  have f: "run_prefix_ok e db evalID job cvContent projectContent
       \<and> svc_GenerateTextWithRetry e ctx
            (BuildCVEvaluationPrompt (pdf_Text cvContent) (cvContext_of e ctx cvContent) []
               (JobTitle job)) (3 / 10) (maxRetries e) = Inr []
       \<and> evaluateProject e ctx (pdf_Text projectContent) (projectContext_of e ctx projectContent)
            = Inr projectResult
       \<and> generateSummary e ctx cv_fallback projectResult (JobTitle job) = Inr overallSummary
     \<longrightarrow> (\<exists>job'. EvaluateCandidate e ctx evalID db = (None, db(evalID \<mapsto> job'))
              \<and> Status job' = StatusCompleted
              \<and> CVMatchRate job' = Some 0
              \<and> CVFeedback job' = Some (cv_Feedback cv_fallback)
              \<and> OverallSummary job' = Some overallSummary)"
  proof
    assume h: "run_prefix_ok e db evalID job cvContent projectContent
       \<and> svc_GenerateTextWithRetry e ctx
            (BuildCVEvaluationPrompt (pdf_Text cvContent) (cvContext_of e ctx cvContent) []
               (JobTitle job)) (3 / 10) (maxRetries e) = Inr []
       \<and> evaluateProject e ctx (pdf_Text projectContent) (projectContext_of e ctx projectContent)
            = Inr projectResult
       \<and> generateSummary e ctx cv_fallback projectResult (JobTitle job) = Inr overallSummary"
    then have cv: "evaluateCV e ctx (pdf_Text cvContent) (cvContext_of e ctx cvContent)
                     (JobTitle job) = Inr cv_fallback"
      by (simp add: evaluateCV_empty)
    from run_completes[OF _ cv, of db evalID projectContent projectResult overallSummary] h m0
    show "\<exists>job'. EvaluateCandidate e ctx evalID db = (None, db(evalID \<mapsto> job'))
              \<and> Status job' = StatusCompleted
              \<and> CVMatchRate job' = Some 0
              \<and> CVFeedback job' = Some (cv_Feedback cv_fallback)
              \<and> OverallSummary job' = Some overallSummary"
      by auto
  qed
  have g: "run_prefix_ok e db evalID job cvContent projectContent
       \<and> evaluateCV e ctx (pdf_Text cvContent) (cvContext_of e ctx cvContent) (JobTitle job)
            = Inr cvResult
       \<and> svc_GenerateTextWithRetry e ctx
            (BuildProjectEvaluationPrompt (pdf_Text projectContent)
               (projectContext_of e ctx projectContent) []) (3 / 10) (maxRetries e) = Inr []
       \<and> generateSummary e ctx cvResult project_fallback (JobTitle job) = Inr overallSummary
     \<longrightarrow> (\<exists>job'. EvaluateCandidate e ctx evalID db = (None, db(evalID \<mapsto> job'))
              \<and> Status job' = StatusCompleted
              \<and> ProjectScore job' = Some 0
              \<and> ProjectFeedback job' = Some (pr_Feedback project_fallback)
              \<and> OverallSummary job' = Some overallSummary)"
  proof
    assume h: "run_prefix_ok e db evalID job cvContent projectContent
       \<and> evaluateCV e ctx (pdf_Text cvContent) (cvContext_of e ctx cvContent) (JobTitle job)
            = Inr cvResult
       \<and> svc_GenerateTextWithRetry e ctx
            (BuildProjectEvaluationPrompt (pdf_Text projectContent)
               (projectContext_of e ctx projectContent) []) (3 / 10) (maxRetries e) = Inr []
       \<and> generateSummary e ctx cvResult project_fallback (JobTitle job) = Inr overallSummary"
    then have pr: "evaluateProject e ctx (pdf_Text projectContent)
                     (projectContext_of e ctx projectContent) = Inr project_fallback"
      by (simp add: evaluateProject_empty)
    from run_completes[OF _ _ pr, of db evalID job cvContent cvResult overallSummary] h m0
    show "\<exists>job'. EvaluateCandidate e ctx evalID db = (None, db(evalID \<mapsto> job'))
              \<and> Status job' = StatusCompleted
              \<and> ProjectScore job' = Some 0
              \<and> ProjectFeedback job' = Some (pr_Feedback project_fallback)
              \<and> OverallSummary job' = Some overallSummary"
      by auto
  qed
  from a b c d f g show ?thesis by blast
qed

lemma degraded_prefix:
  "run_prefix_ok degraded_evaluator (Map.empty(1 \<mapsto> queued_job)) 1 queued_job
     (page_one (str ''uploads/cv.pdf'')) (page_one (str ''uploads/report.pdf''))"
  by (simp add: run_prefix_ok_def degraded_evaluator_def queued_job_def cv_doc_def
                project_doc_def page_one_def)

lemma TrimSpace_Hire: "TrimSpace (str '' Hire. '') = str ''Hire.''"
  by (simp add: TrimSpace_def str_def IsSpace_def)

text \<open>A run in which both evaluation calls return the empty string and the summary call
  answers.\<close>

theorem empty_generation_falls_back_witness:
  "run_prefix_ok degraded_evaluator (Map.empty(1 \<mapsto> queued_job)) 1 queued_job
     (page_one (str ''uploads/cv.pdf'')) (page_one (str ''uploads/report.pdf''))
   \<and> evaluateCV degraded_evaluator background [] [] [] = Inr cv_fallback
   \<and> evaluateProject degraded_evaluator background [] [] = Inr project_fallback
   \<and> (\<exists>job'. EvaluateCandidate degraded_evaluator background 1 (Map.empty(1 \<mapsto> queued_job))
                = (None, (Map.empty(1 \<mapsto> queued_job))(1 \<mapsto> job'))
              \<and> Status job' = StatusCompleted
              \<and> CVMatchRate job' = Some 0
              \<and> CVFeedback job' = Some (cv_Feedback cv_fallback)
              \<and> OverallSummary job' = Some (str ''Hire.''))"
proof -
  let ?c1 = "page_one (str ''uploads/cv.pdf'')"
  let ?c2 = "page_one (str ''uploads/report.pdf'')"
  have g: "\<And>p n. svc_GenerateTextWithRetry degraded_evaluator background p (3 / 10) n = Inr []"
    by (simp add: degraded_evaluator_def)
  have pr: "evaluateProject degraded_evaluator background (pdf_Text ?c2)
              (projectContext_of degraded_evaluator background ?c2) = Inr project_fallback"
    by (simp add: evaluateProject_def g)
  have su: "generateSummary degraded_evaluator background cv_fallback project_fallback
              (JobTitle queued_job) = Inr (str ''Hire.'')"
    by (simp add: generateSummary_def degraded_evaluator_def TrimSpace_Hire)
  note t = empty_generation_falls_back
             [where e = degraded_evaluator and ctx = background
                and db = "Map.empty(1 \<mapsto> queued_job)" and evalID = 1 and job = queued_job
                and cvContent = ?c1 and projectContent = ?c2
                and projectResult = project_fallback and overallSummary = "str ''Hire.''"
                and cvText = "[]" and ragContext = "[]" and jobTitle = "[]" and projectText = "[]"]
  from t g have a: "evaluateCV degraded_evaluator background [] [] [] = Inr cv_fallback" by blast
  from t g have b: "evaluateProject degraded_evaluator background [] [] = Inr project_fallback"
    by blast
  from t degraded_prefix g pr su
  have c: "\<exists>job'. EvaluateCandidate degraded_evaluator background 1 (Map.empty(1 \<mapsto> queued_job))
                = (None, (Map.empty(1 \<mapsto> queued_job))(1 \<mapsto> job'))
              \<and> Status job' = StatusCompleted
              \<and> CVMatchRate job' = Some 0
              \<and> CVFeedback job' = Some (cv_Feedback cv_fallback)
              \<and> OverallSummary job' = Some (str ''Hire.'')"
    by blast
  from degraded_prefix a b c show ?thesis by blast
qed


section \<open>Verification: the empty-response branch behind the Gemini service\<close>

text \<open>
  Claim C10. \<^verbatim>\<open>GenerateText\<close> never returns the empty string with a nil error, and so
  neither does \<^verbatim>\<open>GenerateTextWithRetry\<close>. Hence, in an evaluator whose generation is
  this service, the branch for an empty response is dead: \<^verbatim>\<open>evaluateCV\<close> and
  \<^verbatim>\<open>evaluateProject\<close> compute what they would compute without it.
\<close>

theorem GenerateText_never_empty_success:
  "GenerateText g prompt temperature k \<noteq> Inr []
   \<and> GenerateTextWithRetry g ctx prompt temperature n \<noteq> Inr []
   \<and> (svc_GenerateTextWithRetry e = GenerateTextWithRetry g \<longrightarrow>
        evaluateCV e ctx cvText ragContext jobTitle =
          (case GenerateTextWithRetry g ctx (BuildCVEvaluationPrompt cvText ragContext [] jobTitle)
                  (3 / 10) (maxRetries e) of
             Inl err \<Rightarrow> Inl (ErrorWrap (str ''failed to generate CV evaluation: '') err [])
           | Inr response \<Rightarrow>
               (case parseJSONResponse (Unmarshal_CV e) response of
                  Inl err \<Rightarrow> Inl (ErrorWrap (str ''failed to parse CV evaluation response: '') err [])
                | Inr result \<Rightarrow> Inr result))
      \<and> evaluateProject e ctx projectText ragContext =
          (case GenerateTextWithRetry g ctx (BuildProjectEvaluationPrompt projectText ragContext [])
                  (3 / 10) (maxRetries e) of
             Inl err \<Rightarrow> Inl (ErrorWrap (str ''failed to generate project evaluation: '') err [])
           | Inr response \<Rightarrow>
               (case parseJSONResponse (Unmarshal_Project e) response of
                  Inl err \<Rightarrow>
                    Inl (ErrorWrap (str ''failed to parse project evaluation response: '') err [])
                | Inr result \<Rightarrow> Inr result)))"
proof (intro conjI impI)
  show "GenerateText g prompt temperature k \<noteq> Inr []" by (rule GenerateText_nonempty)
  show "GenerateTextWithRetry g ctx prompt temperature n \<noteq> Inr []"
    by (rule GenerateTextWithRetry_nonempty)
next
  assume h: "svc_GenerateTextWithRetry e = GenerateTextWithRetry g"
  let ?r = "GenerateTextWithRetry g ctx (BuildCVEvaluationPrompt cvText ragContext [] jobTitle)
              (3 / 10) (maxRetries e)"
  have "?r \<noteq> Inr []" by (rule GenerateTextWithRetry_nonempty)
  then show "evaluateCV e ctx cvText ragContext jobTitle =
          (case ?r of
             Inl err \<Rightarrow> Inl (ErrorWrap (str ''failed to generate CV evaluation: '') err [])
           | Inr response \<Rightarrow>
               (case parseJSONResponse (Unmarshal_CV e) response of
                  Inl err \<Rightarrow> Inl (ErrorWrap (str ''failed to parse CV evaluation response: '') err [])
                | Inr result \<Rightarrow> Inr result))"
    using h by (cases ?r) (simp_all add: evaluateCV_def)
next
  assume h: "svc_GenerateTextWithRetry e = GenerateTextWithRetry g"
  let ?r = "GenerateTextWithRetry g ctx (BuildProjectEvaluationPrompt projectText ragContext [])
              (3 / 10) (maxRetries e)"
  have "?r \<noteq> Inr []" by (rule GenerateTextWithRetry_nonempty)
  then show "evaluateProject e ctx projectText ragContext =
          (case ?r of
             Inl err \<Rightarrow> Inl (ErrorWrap (str ''failed to generate project evaluation: '') err [])
           | Inr response \<Rightarrow>
               (case parseJSONResponse (Unmarshal_Project e) response of
                  Inl err \<Rightarrow>
                    Inl (ErrorWrap (str ''failed to parse project evaluation response: '') err [])
                | Inr result \<Rightarrow> Inr result))"
    using h by (cases ?r) (simp_all add: evaluateProject_def)
qed

text \<open>The service on a response without text, behind the evaluator.\<close>

theorem GenerateText_never_empty_success_witness:
  "svc_GenerateTextWithRetry (gemini_backed textless_service) = GenerateTextWithRetry textless_service
   \<and> GenerateText textless_service [] 0 1 = Inr (str ''&{[] model}'')
   \<and> evaluateCV (gemini_backed textless_service) background [] [] [] =
       (case GenerateTextWithRetry textless_service background (BuildCVEvaluationPrompt [] [] [] [])
               (3 / 10) (maxRetries (gemini_backed textless_service)) of
          Inl err \<Rightarrow> Inl (ErrorWrap (str ''failed to generate CV evaluation: '') err [])
        | Inr response \<Rightarrow>
            (case parseJSONResponse (Unmarshal_CV (gemini_backed textless_service)) response of
               Inl err \<Rightarrow> Inl (ErrorWrap (str ''failed to parse CV evaluation response: '') err [])
             | Inr result \<Rightarrow> Inr result))"
proof -
  have h: "svc_GenerateTextWithRetry (gemini_backed textless_service)
             = GenerateTextWithRetry textless_service"
    by (simp add: gemini_backed_def degraded_evaluator_def)
  have v: "GenerateText textless_service [] 0 1 = Inr (str ''&{[] model}'')"
    by (simp add: GenerateText_def textless_service_def Sprintf_v_def str_def)
  from GenerateText_never_empty_success
         [where e = "gemini_backed textless_service" and g = textless_service
            and ctx = background and cvText = "[]" and ragContext = "[]" and jobTitle = "[]"] h v
  show ?thesis by blast
qed


section \<open>Verification: extraction of the structured response\<close>

lemma HasPrefix_iff: "HasPrefix s old \<longleftrightarrow> (\<exists>r. s = old @ r)"
  unfolding HasPrefix_def by (metis append_eq_conv_conj append_take_drop_id)

lemma HasPrefix_append:
  "HasPrefix a old \<Longrightarrow> HasPrefix (a @ b) old"
  unfolding HasPrefix_iff by auto

lemma HasPrefix_decompose: "HasPrefix s old \<Longrightarrow> s = old @ drop (length old) s"
  unfolding HasPrefix_def by (metis append_take_drop_id)

lemma HasPrefix_length: "HasPrefix s old \<Longrightarrow> length old \<le> length s"
  unfolding HasPrefix_def by (metis length_take min.cobounded1)

lemma HasPrefix_append_iff:
  assumes "b = [] \<or> hd b \<notin> set old"
  shows "HasPrefix (a @ b) old \<longleftrightarrow> HasPrefix a old"
proof
  assume "HasPrefix a old" then show "HasPrefix (a @ b) old" by (rule HasPrefix_append)
next
  assume h: "HasPrefix (a @ b) old"
  show "HasPrefix a old"
  proof (cases "length old \<le> length a")
    case True
    with h show ?thesis by (simp add: HasPrefix_def)
  next
    case False
    then have lt: "length a < length old" by simp
    from h lt have eq: "old = a @ take (length old - length a) b" by (simp add: HasPrefix_def)
    have "b \<noteq> []" using eq lt by (cases b) auto
    then obtain x xs where b: "b = x # xs" by (cases b) auto
    have "take (length old - length a) b = x # take (length old - length a - 1) xs"
      using lt b by (cases "length old - length a") auto
    with eq have "x \<in> set old" by (metis in_set_conv_decomp)
    with assms b show ?thesis by simp
  qed
qed

lemma ReplaceAll_append:
  assumes "old \<noteq> []" and "b = [] \<or> hd b \<notin> set old"
  shows "ReplaceAll (a @ b) old new = ReplaceAll a old new @ ReplaceAll b old new"
  using assms
proof (induction a old new rule: ReplaceAll.induct)
  case (1 s old new)
  show ?case
  proof (cases "s = []")
    case True
    then show ?thesis using "1.prems" by (simp add: ReplaceAll.simps[of "[]"])
  next
    case ne: False
    show ?thesis
    proof (cases "HasPrefix s old")
      case True
      then have p: "HasPrefix (s @ b) old" by (rule HasPrefix_append)
      have d: "drop (length old) (s @ b) = drop (length old) s @ b"
        using HasPrefix_length[OF True] by simp
      have e1: "ReplaceAll (s @ b) old new = new @ ReplaceAll (drop (length old) s @ b) old new"
        using p d "1.prems" ne by (subst ReplaceAll.simps) simp
      have e2: "ReplaceAll (drop (length old) s @ b) old new
                  = ReplaceAll (drop (length old) s) old new @ ReplaceAll b old new"
        using "1.IH"(1)[OF _ ne True] "1.prems" by simp
      have e3: "ReplaceAll s old new = new @ ReplaceAll (drop (length old) s) old new"
        using True ne "1.prems" by (subst ReplaceAll.simps) simp
      show ?thesis by (simp add: e1 e2 e3)
    next
      case False
      then have np: "\<not> HasPrefix (s @ b) old"
        using HasPrefix_append_iff[OF "1.prems"(2)] by simp
      have e1: "ReplaceAll (s @ b) old new = hd s # ReplaceAll (tl s @ b) old new"
        using np ne "1.prems" by (subst ReplaceAll.simps) simp
      have e2: "ReplaceAll (tl s @ b) old new = ReplaceAll (tl s) old new @ ReplaceAll b old new"
        using "1.IH"(2)[OF _ ne False] "1.prems" by simp
      have e3: "ReplaceAll s old new = hd s # ReplaceAll (tl s) old new"
        using False ne "1.prems" by (subst ReplaceAll.simps) simp
      show ?thesis by (simp add: e1 e2 e3)
    qed
  qed
qed

lemma ReplaceAll_Cons:
  assumes "old \<noteq> []" and "c \<notin> set old"
  shows "ReplaceAll (c # s) old new = c # ReplaceAll s old new"
proof -
  have "\<not> HasPrefix (c # s) old"
    using assms by (cases old) (auto simp: HasPrefix_def)
  then show ?thesis using assms by (subst ReplaceAll.simps) simp
qed

lemma set_ReplaceAll_delete: "old \<noteq> [] \<Longrightarrow> set (ReplaceAll s old []) \<subseteq> set s"
proof (induction s old "[] :: gostring" rule: ReplaceAll.induct)
  case (1 s old)
  show ?case
  proof (cases "s = []")
    case True
    then show ?thesis using "1.prems" by (simp add: ReplaceAll.simps[of "[]"])
  next
    case ne: False
    show ?thesis
    proof (cases "HasPrefix s old")
      case True
      have "ReplaceAll s old [] = ReplaceAll (drop (length old) s) old []"
        using True ne "1.prems" by (subst ReplaceAll.simps) simp
      moreover have "set (ReplaceAll (drop (length old) s) old []) \<subseteq> set (drop (length old) s)"
        using "1.hyps"(1)[OF _ ne True] "1.prems" by simp
      ultimately show ?thesis using set_drop_subset[of "length old" s] by auto
    next
      case False
      have "ReplaceAll s old [] = hd s # ReplaceAll (tl s) old []"
        using False ne "1.prems" by (subst ReplaceAll.simps) simp
      moreover have "set (ReplaceAll (tl s) old []) \<subseteq> set (tl s)"
        using "1.hyps"(2)[OF _ ne False] "1.prems" by simp
      ultimately show ?thesis using ne by (cases s) auto
    qed
  qed
qed

lemma HasPrefix_single: "HasPrefix (x # s) [c] \<longleftrightarrow> x = c"
  by (simp add: HasPrefix_def)

lemma takeWhile_neq_notin: "c \<notin> set P \<Longrightarrow> takeWhile (\<lambda>x. x \<noteq> c) (P @ R) = P @ takeWhile (\<lambda>x. x \<noteq> c) R"
  by (induction P) auto

lemma takeWhile_neq_in: "c \<in> set M \<Longrightarrow> takeWhile (\<lambda>x. x \<noteq> c) (M @ Q) = takeWhile (\<lambda>x. x \<noteq> c) M"
  by (induction M) auto

lemma takeWhile_neq_length: "c \<in> set s \<Longrightarrow> length (takeWhile (\<lambda>x. x \<noteq> c) s) < length s"
  by (induction s) auto

lemma Index_single_notin: "c \<notin> set s \<Longrightarrow> Index s [c] = -1"
  by (induction s) (auto simp: HasPrefix_single)

lemma Index_single_in: "c \<in> set s \<Longrightarrow> Index s [c] = int (length (takeWhile (\<lambda>x. x \<noteq> c) s))"
  by (induction s) (auto simp: HasPrefix_single Let_def)

lemma LastIndex_single_notin: "c \<notin> set s \<Longrightarrow> LastIndex s [c] = -1"
  by (induction s) (auto simp: HasPrefix_single)

lemma LastIndex_single_nonneg: "c \<in> set s \<Longrightarrow> 0 \<le> LastIndex s [c]"
  by (induction s) (auto simp: HasPrefix_single Let_def)

lemma LastIndex_single_in:
  "c \<in> set s \<Longrightarrow>
   LastIndex s [c] = int (length s) - 1 - int (length (takeWhile (\<lambda>x. x \<noteq> c) (rev s)))"
proof (induction s)
  case Nil
  then show ?case by simp
next
  case (Cons x s)
  show ?case
  proof (cases "c \<in> set s")
    case True
    have nn: "0 \<le> LastIndex s [c]" using True by (rule LastIndex_single_nonneg)
    have tw: "takeWhile (\<lambda>x. x \<noteq> c) (rev s @ [x]) = takeWhile (\<lambda>x. x \<noteq> c) (rev s)"
      using True by (simp add: takeWhile_neq_in)
    have "LastIndex (x # s) [c] = LastIndex s [c] + 1" using nn by (simp add: Let_def)
    then show ?thesis using Cons.IH[OF True] tw by simp
  next
    case False
    with Cons.prems have xc: "x = c" by simp
    have tw: "takeWhile (\<lambda>x. x \<noteq> c) (rev s @ [x]) = rev s"
      using False xc by (simp add: takeWhile_neq_notin)
    have "LastIndex (x # s) [c] = 0"
      using False xc by (simp add: LastIndex_single_notin HasPrefix_single)
    then show ?thesis using tw by simp
  qed
qed

lemma Index_single_append:
  assumes "c \<notin> set P" and "c \<in> set M"
  shows "Index (P @ M @ Q) [c] = int (length P) + Index M [c]"
proof -
  have "takeWhile (\<lambda>x. x \<noteq> c) (P @ M @ Q) = P @ takeWhile (\<lambda>x. x \<noteq> c) M"
    using assms by (simp add: takeWhile_neq_notin takeWhile_neq_in)
  then show ?thesis using assms by (simp add: Index_single_in)
qed

lemma LastIndex_single_append:
  assumes "c \<notin> set Q" and "c \<in> set M"
  shows "LastIndex (P @ M @ Q) [c] = int (length P) + LastIndex M [c]"
proof -
  have "takeWhile (\<lambda>x. x \<noteq> c) (rev Q @ rev M @ rev P) = rev Q @ takeWhile (\<lambda>x. x \<noteq> c) (rev M)"
    using assms by (simp add: takeWhile_neq_notin takeWhile_neq_in)
  then show ?thesis using assms by (simp add: LastIndex_single_in)
qed

lemma Index_single_bounds: "c \<in> set s \<Longrightarrow> 0 \<le> Index s [c] \<and> Index s [c] < int (length s)"
  using takeWhile_neq_length[of c s] by (simp add: Index_single_in)

lemma LastIndex_single_bounds:
  "c \<in> set s \<Longrightarrow> 0 \<le> LastIndex s [c] \<and> LastIndex s [c] < int (length s)"
  using takeWhile_neq_length[of c "rev s"] by (simp add: LastIndex_single_in)

lemma slice_middle:
  assumes "0 \<le> i" and "i \<le> j" and "j \<le> int (length M)"
  shows "slice (P @ M @ Q) (int (length P) + i) (int (length P) + j) = slice M i j"
proof -
  have a: "nat (int (length P) + i) = length P + nat i" using assms by simp
  have b: "nat (j - i) \<le> length M - nat i" using assms by simp
  have c: "int (length P) + j - (int (length P) + i) = j - i" by simp
  show ?thesis unfolding slice_def a c using b by simp
qed

lemma LastIndex_single_sign: "0 \<le> LastIndex s [c] \<longleftrightarrow> c \<in> set s"
proof (cases "c \<in> set s")
  case True
  then show ?thesis by (simp add: LastIndex_single_nonneg)
next
  case False
  then show ?thesis by (simp add: LastIndex_single_notin)
qed

lemma Index_single_sign: "0 \<le> Index s [c] \<longleftrightarrow> c \<in> set s"
proof (cases "c \<in> set s")
  case True
  then show ?thesis by (simp add: Index_single_bounds)
next
  case False
  then show ?thesis by (simp add: Index_single_notin)
qed

lemma brace_order:
  assumes "c1 \<noteq> c2"
  shows "c2 \<in> set (dropWhile (\<lambda>x. x \<noteq> c1) s)
         \<longleftrightarrow> (0 \<le> Index s [c1] \<and> Index s [c1] < LastIndex s [c2])"
proof (induction s)
  case Nil
  then show ?case by simp
next
  case (Cons x s)
  show ?case
  proof (cases "x = c1")
    case True
    have i: "Index (x # s) [c1] = 0" using True by (simp add: HasPrefix_single)
    have l: "0 < LastIndex (x # s) [c2] \<longleftrightarrow> c2 \<in> set s"
    proof (cases "c2 \<in> set s")
      case True
      then show ?thesis using LastIndex_single_nonneg[OF True] by (simp add: Let_def)
    next
      case False
      then show ?thesis using assms \<open>x = c1\<close>
        by (simp add: LastIndex_single_notin HasPrefix_single)
    qed
    show ?thesis using True assms i l
      by (simp del: Index.simps LastIndex.simps)
  next
    case False
    show ?thesis
    proof (cases "c1 \<in> set s")
      case c1in: True
      then have i: "Index (x # s) [c1] = Index s [c1] + 1" and i0: "0 \<le> Index s [c1]"
        using False Index_single_bounds[OF c1in] by (simp_all add: HasPrefix_single Let_def)
      show ?thesis
      proof (cases "c2 \<in> set s")
        case True
        then have "LastIndex (x # s) [c2] = LastIndex s [c2] + 1"
          using LastIndex_single_nonneg[OF True] by (simp add: Let_def)
        then show ?thesis using False Cons.IH i i0
          by (auto simp del: Index.simps LastIndex.simps)
      next
        case c2out: False
        then have "LastIndex (x # s) [c2] \<le> 0"
          by (simp add: LastIndex_single_notin HasPrefix_single)
        moreover have "c2 \<notin> set (dropWhile (\<lambda>x. x \<noteq> c1) s)"
          using c2out set_dropWhileD by fastforce
        ultimately show ?thesis using False i i0
          by (simp del: Index.simps LastIndex.simps)
      qed
    next
      case c1out: False
      have i: "Index (x # s) [c1] = -1"
        using c1out False by (simp add: Index_single_notin HasPrefix_single)
      have e: "dropWhile (\<lambda>x. x \<noteq> c1) (x # s) = []"
        using c1out False by (intro iffD2[OF dropWhile_eq_Nil_conv]) auto
      show ?thesis unfolding e i by simp
    qed
  qed
qed

lemma ReplaceAll_unfold_prefix:
  "old \<noteq> [] \<Longrightarrow> s \<noteq> [] \<Longrightarrow> HasPrefix s old
   \<Longrightarrow> ReplaceAll s old new = new @ ReplaceAll (drop (length old) s) old new"
  by (subst ReplaceAll.simps) simp

lemma ReplaceAll_unfold_step:
  "old \<noteq> [] \<Longrightarrow> s \<noteq> [] \<Longrightarrow> \<not> HasPrefix s old
   \<Longrightarrow> ReplaceAll s old new = hd s # ReplaceAll (tl s) old new"
  by (subst ReplaceAll.simps) simp

lemma ReplaceAll_keeps:
  "old \<noteq> [] \<Longrightarrow> c \<notin> set old \<Longrightarrow> c \<in> set s \<Longrightarrow> c \<in> set (ReplaceAll s old [])"
proof (induction s old "[] :: gostring" rule: ReplaceAll.induct)
  case (1 s old)
  from "1.prems" have ne: "s \<noteq> []" by auto
  show ?case
  proof (cases "HasPrefix s old")
    case True
    have s: "s = old @ drop (length old) s" using True by (rule HasPrefix_decompose)
    then have "c \<in> set (drop (length old) s)" using "1.prems" by (metis Un_iff set_append)
    then have "c \<in> set (ReplaceAll (drop (length old) s) old [])"
      using "1.hyps"(1)[OF _ ne True] "1.prems" by simp
    then show ?thesis using ReplaceAll_unfold_prefix[OF "1.prems"(1) ne True] by simp
  next
    case False
    have u: "ReplaceAll s old [] = hd s # ReplaceAll (tl s) old []"
      using ReplaceAll_unfold_step[OF "1.prems"(1) ne False] .
    show ?thesis
    proof (cases "c = hd s")
      case True
      then show ?thesis using u by simp
    next
      case neq: False
      then have "c \<in> set (tl s)" using "1.prems" ne by (cases s) auto
      then have "c \<in> set (ReplaceAll (tl s) old [])"
        using "1.hyps"(2)[OF _ ne False] "1.prems" by simp
      then show ?thesis using u by simp
    qed
  qed
qed

lemma dropWhile_skip:
  "c1 \<notin> set a \<Longrightarrow> dropWhile (\<lambda>x. x \<noteq> c1) (a @ b) = dropWhile (\<lambda>x. x \<noteq> c1) b"
  by (induction a) auto

lemma ReplaceAll_brace_order:
  "old \<noteq> [] \<Longrightarrow> c1 \<notin> set old \<Longrightarrow> c2 \<notin> set old \<Longrightarrow>
   c2 \<in> set (dropWhile (\<lambda>x. x \<noteq> c1) s) \<Longrightarrow>
   c2 \<in> set (dropWhile (\<lambda>x. x \<noteq> c1) (ReplaceAll s old []))"
proof (induction s old "[] :: gostring" rule: ReplaceAll.induct)
  case (1 s old)
  from "1.prems" have ne: "s \<noteq> []" by auto
  show ?case
  proof (cases "HasPrefix s old")
    case True
    have s: "s = old @ drop (length old) s" using True by (rule HasPrefix_decompose)
    have "dropWhile (\<lambda>x. x \<noteq> c1) s = dropWhile (\<lambda>x. x \<noteq> c1) (drop (length old) s)"
      using dropWhile_skip[OF "1.prems"(2), of "drop (length old) s"] s by simp
    then have "c2 \<in> set (dropWhile (\<lambda>x. x \<noteq> c1) (drop (length old) s))"
      using "1.prems" by simp
    then have "c2 \<in> set (dropWhile (\<lambda>x. x \<noteq> c1) (ReplaceAll (drop (length old) s) old []))"
      using "1.hyps"(1)[OF _ ne True] "1.prems" by simp
    then show ?thesis using ReplaceAll_unfold_prefix[OF "1.prems"(1) ne True] by simp
  next
    case False
    have u: "ReplaceAll s old [] = hd s # ReplaceAll (tl s) old []"
      using ReplaceAll_unfold_step[OF "1.prems"(1) ne False] .
    obtain x t where xt: "s = x # t" using ne by (cases s) auto
    show ?thesis
    proof (cases "x = c1")
      case True
      then have "c2 \<in> set s" using "1.prems"(4) xt by auto
      then have "c2 \<in> set (ReplaceAll s old [])"
        using ReplaceAll_keeps "1.prems" by simp
      then show ?thesis using u xt True by simp
    next
      case neq: False
      then have "c2 \<in> set (dropWhile (\<lambda>x. x \<noteq> c1) (tl s))" using "1.prems"(4) xt by simp
      then have "c2 \<in> set (dropWhile (\<lambda>x. x \<noteq> c1) (ReplaceAll (tl s) old []))"
        using "1.hyps"(2)[OF _ ne False] "1.prems" by simp
      then show ?thesis using u xt neq by simp
    qed
  qed
qed

lemma fence_chars:
  "str ''```json'' \<noteq> []" "str ''```'' \<noteq> []"
  "10 \<notin> set (str ''```json'')" "10 \<notin> set (str ''```'')"
  "123 \<notin> set (str ''```json'')" "123 \<notin> set (str ''```'')"
  "125 \<notin> set (str ''```json'')" "125 \<notin> set (str ''```'')"
  by (simp_all add: str_def)

lemma ReplaceAll_newline_split:
  assumes "old \<noteq> []" and "10 \<notin> set old"
  shows "ReplaceAll (a @ 10 # b) old [] = ReplaceAll a old [] @ 10 # ReplaceAll b old []"
proof -
  have "ReplaceAll (a @ 10 # b) old [] = ReplaceAll a old [] @ ReplaceAll (10 # b) old []"
    using assms by (intro ReplaceAll_append) simp_all
  then show ?thesis using ReplaceAll_Cons[OF assms, of b "[]"] by simp
qed

lemma strip_fences_wrap:
  "\<exists>P Q. strip_fences (wrap_in_markdown before after json) = P @ strip_fences json @ Q
         \<and> set P \<subseteq> set before \<union> set (str ''```json'') \<union> {10}
         \<and> set Q \<subseteq> set after \<union> set (str ''```'') \<union> {10}"
proof -
  let ?o1 = "str ''```json''" and ?o2 = "str ''```''"
  let ?A = "ReplaceAll (before @ ?o1) ?o1 []"
  let ?B = "ReplaceAll (?o2 @ after) ?o1 []"
  have w: "wrap_in_markdown before after json = (before @ ?o1) @ 10 # (json @ 10 # (?o2 @ after))"
    by (simp add: wrap_in_markdown_def str_def)
  have s1: "ReplaceAll ((before @ ?o1) @ 10 # (json @ 10 # (?o2 @ after))) ?o1 []
              = ?A @ 10 # ReplaceAll (json @ 10 # (?o2 @ after)) ?o1 []"
    by (rule ReplaceAll_newline_split[OF fence_chars(1) fence_chars(3)])
  have s2: "ReplaceAll (json @ 10 # (?o2 @ after)) ?o1 [] = ReplaceAll json ?o1 [] @ 10 # ?B"
    by (rule ReplaceAll_newline_split[OF fence_chars(1) fence_chars(3)])
  have p1: "ReplaceAll (wrap_in_markdown before after json) ?o1 []
              = ?A @ 10 # (ReplaceAll json ?o1 [] @ 10 # ?B)"
    by (simp only: w s1 s2)
  have s3: "ReplaceAll (?A @ 10 # (ReplaceAll json ?o1 [] @ 10 # ?B)) ?o2 []
              = ReplaceAll ?A ?o2 [] @ 10 # ReplaceAll (ReplaceAll json ?o1 [] @ 10 # ?B) ?o2 []"
    by (rule ReplaceAll_newline_split[OF fence_chars(2) fence_chars(4)])
  have s4: "ReplaceAll (ReplaceAll json ?o1 [] @ 10 # ?B) ?o2 []
              = ReplaceAll (ReplaceAll json ?o1 []) ?o2 [] @ 10 # ReplaceAll ?B ?o2 []"
    by (rule ReplaceAll_newline_split[OF fence_chars(2) fence_chars(4)])
  have p2: "strip_fences (wrap_in_markdown before after json)
              = ReplaceAll ?A ?o2 [] @ 10 # (strip_fences json @ 10 # ReplaceAll ?B ?o2 [])"
    by (simp only: strip_fences_def p1 s3 s4)
  have sa: "set (ReplaceAll ?A ?o2 []) \<subseteq> set before \<union> set ?o1"
    using set_ReplaceAll_delete[OF fence_chars(2), of ?A]
          set_ReplaceAll_delete[OF fence_chars(1), of "before @ ?o1"] by auto
  have sb: "set (ReplaceAll ?B ?o2 []) \<subseteq> set after \<union> set ?o2"
    using set_ReplaceAll_delete[OF fence_chars(2), of ?B]
          set_ReplaceAll_delete[OF fence_chars(1), of "?o2 @ after"] by auto
  show ?thesis
    apply (rule exI[of _ "ReplaceAll ?A ?o2 [] @ [10]"])
    apply (rule exI[of _ "10 # ReplaceAll ?B ?o2 []"])
    using p2 sa sb apply auto
    done
qed

lemma extractJSON_strip: "extractJSON text0 =
   (let text = strip_fences text0;
        startObj = Index text (str ''{'');
        startArr = Index text (str ''['');
        endObj = LastIndex text (str ''}'');
        endArr = LastIndex text (str '']'')
    in if startObj \<noteq> -1 \<and> endObj \<noteq> -1 \<and> endObj > startObj
       then slice text startObj (endObj + 1)
       else if startArr \<noteq> -1 \<and> endArr \<noteq> -1 \<and> endArr > startArr
       then slice text startArr (endArr + 1)
       else text)"
  by (simp add: extractJSON_def strip_fences_def Let_def)

lemma extract_object:
  assumes "125 \<in> set (dropWhile (\<lambda>c. c \<noteq> 123) M)"
    and "123 \<notin> set P" "125 \<notin> set Q"
  shows "(let text = P @ M @ Q;
        startObj = Index text [123];
        startArr = Index text (str ''['');
        endObj = LastIndex text [125];
        endArr = LastIndex text (str '']'')
    in if startObj \<noteq> -1 \<and> endObj \<noteq> -1 \<and> endObj > startObj
       then slice text startObj (endObj + 1)
       else if startArr \<noteq> -1 \<and> endArr \<noteq> -1 \<and> endArr > startArr
       then slice text startArr (endArr + 1)
       else text) = slice M (Index M [123]) (LastIndex M [125] + 1)"
proof -
  have o: "0 \<le> Index M [123]" "Index M [123] < LastIndex M [125]"
    using assms(1) brace_order[of 123 125 M] by simp_all
  have m1: "(123::nat) \<in> set M" using o(1) Index_single_sign[of M 123] by simp
  have m2: "(125::nat) \<in> set M" using o LastIndex_single_sign[of M 125] by simp
  have i: "Index (P @ M @ Q) [123] = int (length P) + Index M [123]"
    using assms(2) m1 by (rule Index_single_append)
  have l: "LastIndex (P @ M @ Q) [125] = int (length P) + LastIndex M [125]"
    using assms(3) m2 by (rule LastIndex_single_append)
  have b: "LastIndex M [125] + 1 \<le> int (length M)"
    using LastIndex_single_bounds[OF m2] by simp
  have s: "slice (P @ M @ Q) (int (length P) + Index M [123])
             (int (length P) + (LastIndex M [125] + 1))
           = slice M (Index M [123]) (LastIndex M [125] + 1)"
    using o b by (intro slice_middle) simp_all
  show ?thesis using o s by (simp add: Let_def i l add.assoc)
qed

text \<open>
  Claim C8. For a payload that has an opening brace with a closing brace after it (every
  JSON object has), wrapped in a \<^verbatim>\<open>json\<close> code fence with prose around that contains no
  brace, \<^verbatim>\<open>extractJSON\<close> returns what it returns on the bare payload, and so
  \<^verbatim>\<open>parseJSONResponse\<close> decodes the same value from both.
\<close>

theorem extractJSON_wrap_in_markdown:
  assumes "set before \<inter> set (str ''{}'') = {}" and "set after \<inter> set (str ''{}'') = {}"
    and "of_char CHR ''}'' \<in> set (dropWhile (\<lambda>c. c \<noteq> of_char CHR ''{'') json)"
  shows "extractJSON (wrap_in_markdown before after json) = extractJSON json
       \<and> (\<forall>v. parseJSONResponse unmarshal (wrap_in_markdown before after json) = Inr v
              \<longleftrightarrow> parseJSONResponse unmarshal json = Inr v)"
proof -
  let ?M = "strip_fences json"
  obtain P Q where pq: "strip_fences (wrap_in_markdown before after json) = P @ ?M @ Q"
    and sp: "set P \<subseteq> set before \<union> set (str ''```json'') \<union> {10}"
    and sq: "set Q \<subseteq> set after \<union> set (str ''```'') \<union> {10}"
    using strip_fences_wrap by blast
  have b: "(123::nat) \<notin> set before" "(125::nat) \<notin> set after"
    using assms(1,2) by (auto simp: str_def)
  have p: "123 \<notin> set P" using sp b fence_chars by auto
  have q: "125 \<notin> set Q" using sq b fence_chars by auto
  have j: "125 \<in> set (dropWhile (\<lambda>c. c \<noteq> 123) json)" using assms(3) by simp
  have m: "125 \<in> set (dropWhile (\<lambda>c. c \<noteq> 123) ?M)"
    unfolding strip_fences_def
    by (intro ReplaceAll_brace_order fence_chars j)
  have br: "str ''{'' = [123]" "str ''}'' = [125]" by (simp_all add: str_def)
  have e1: "extractJSON (wrap_in_markdown before after json)
              = slice ?M (Index ?M [123]) (LastIndex ?M [125] + 1)"
    unfolding extractJSON_strip pq br using extract_object[OF m p q] .
  have e2: "extractJSON json = slice ?M (Index ?M [123]) (LastIndex ?M [125] + 1)"
    unfolding extractJSON_strip br using extract_object[OF m, of "[]" "[]"] by simp
  have e: "extractJSON (wrap_in_markdown before after json) = extractJSON json"
    using e1 e2 by simp
  have "\<And>v. parseJSONResponse unmarshal (wrap_in_markdown before after json) = Inr v
              \<longleftrightarrow> parseJSONResponse unmarshal json = Inr v"
    by (simp add: parseJSONResponse_def e Let_def split: sum.splits)
  with e show ?thesis by blast
qed

lemma tagged_payload_bare: "extractJSON tagged_payload = tagged_payload"
  by code_simp

text \<open>The property on a response with prose before and after the fence.\<close>

theorem extractJSON_wrap_in_markdown_witness:
  "set prose_before \<inter> set (str ''{}'') = {} \<and> set prose_after \<inter> set (str ''{}'') = {}
   \<and> of_char CHR ''}'' \<in> set (dropWhile (\<lambda>c. c \<noteq> of_char CHR ''{'') tagged_payload)
   \<and> extractJSON (wrap_in_markdown prose_before prose_after tagged_payload) = tagged_payload"
proof -
  have a: "set prose_before \<inter> set (str ''{}'') = {}"
    by (simp add: prose_before_def str_def)
  have b: "set prose_after \<inter> set (str ''{}'') = {}"
    by (simp add: prose_after_def str_def)
  have c: "of_char CHR ''}'' \<in> set (dropWhile (\<lambda>c. c \<noteq> of_char CHR ''{'') tagged_payload)"
    by (simp add: tagged_payload_def str_def)
  from extractJSON_wrap_in_markdown
         [OF a b c, where unmarshal = "\<lambda>s. (Inr s :: go_error + gostring)"]
  have "extractJSON (wrap_in_markdown prose_before prose_after tagged_payload)
          = extractJSON tagged_payload" ..
  with tagged_payload_bare a b c show ?thesis by simp
qed

section \<open>Verification: the text chunker\<close>

lemma utf8_width_pos: "0 < utf8_width r"
  by (simp add: utf8_width_def)

lemma len_Nil [simp]: "len [] = 0"
  by (simp add: len_def)

lemma len_append [simp]: "len (a @ b) = len a + len b"
  by (simp add: len_def)

lemma len_pos_iff: "0 < len s \<longleftrightarrow> s \<noteq> []"
proof (cases s)
  case Nil
  then show ?thesis by simp
next
  case (Cons r t)
  then show ?thesis using utf8_width_pos[of r] by (simp add: len_def)
qed



lemma separator_nonempty: "separator k \<noteq> []"
  by (cases k) (simp_all add: str_def)

lemma sentence_loop_fold:
  "sentence_loop m ov st ss =
     foldl (unit_step m ov) st
       (map (Pair SentenceUnit) (filter (\<lambda>s. s \<noteq> []) (map TrimSpace ss)))"
  by (induction ss arbitrary: st) (simp_all add: Let_def unit_step_def)

lemma paragraph_loop_fold:
  "paragraph_loop m ov st ps = foldl (unit_step m ov) st (concat (map (paragraph_units m) ps))"
  by (induction ps arbitrary: st)
     (simp_all add: Let_def unit_step_def paragraph_units_def sentence_loop_fold)

lemma units_nonempty: "(k, u) \<in> set (units text m) \<Longrightarrow> u \<noteq> []"
  by (auto simp: units_def paragraph_units_def Let_def split: if_splits)

lemma ChunkText_fold:
  "ChunkText text m0 ov0 =
     (let (chunks, currentChunk) =
            foldl (unit_step (effective_max m0) (effective_overlap m0 ov0)) ([], []) (units text m0)
      in if currentChunk \<noteq> [] then chunks @ [currentChunk] else chunks)"
  by (simp add: ChunkText_def Let_def paragraph_loop_fold units_def len_pos_iff)

text \<open>One step on a state whose builder is empty, on one whose builder is flushed, and on
  one whose builder has room.\<close>

lemma unit_step_empty:
  "u \<noteq> [] \<Longrightarrow> unit_step m ov (chunks, []) (k, u) = (chunks, u)"
  by (simp add: unit_step_def add_unit_def)

lemma unit_step_flush:
  assumes "cur \<noteq> []" and "int (len cur) + int (len u) + separator_len k > m"
  shows "unit_step m ov (chunks, cur) (k, u) =
           (chunks @ [cur],
            (if getLastNChars cur ov = [] then u
             else getLastNChars cur ov @ separator k @ separator k @ u))"
proof -
  have g: "ov \<le> 0 \<Longrightarrow> getLastNChars cur ov = []" by (simp add: getLastNChars_def)
  show ?thesis
    using assms g separator_nonempty[of k]
    by (auto simp: unit_step_def add_unit_def Let_def len_pos_iff)
qed

lemma unit_step_room:
  assumes "cur \<noteq> []" and "\<not> int (len cur) + int (len u) + separator_len k > m"
  shows "unit_step m ov (chunks, cur) (k, u) = (chunks, cur @ separator k @ u)"
  using assms by (simp add: unit_step_def add_unit_def Let_def len_pos_iff)

lemma render_snoc:
  "g \<noteq> [] \<Longrightarrow> render ovt (g @ [(k, u)]) = render ovt g @ separator k @ u"
  by (cases g) auto

lemma rebuild_snoc:
  "rebuild ov prev (gs @ [g]) =
     rebuild ov prev gs @ [render (getLastNChars (last (prev # rebuild ov prev gs)) ov) g]"
  by (induction gs arbitrary: prev) (simp_all add: Let_def)

lemma getLastNChars_Nil: "getLastNChars [] n = []"
  by (simp add: getLastNChars_def)

lemma groupedI:
  "chunks = rebuild ov [] groups \<Longrightarrow> [] \<notin> set groups \<Longrightarrow> g \<noteq> [] \<Longrightarrow> cur \<noteq> [] \<Longrightarrow>
   cur = render (getLastNChars (last ([] # chunks)) ov) g \<Longrightarrow>
   grouped ov (chunks, cur) groups g"
  by (simp add: grouped_def)

lemma grouped_step:
  assumes inv: "grouped ov (chunks, cur) groups g" and u: "u \<noteq> []"
  shows "\<exists>groups' g'. grouped ov (unit_step m ov (chunks, cur) (k, u)) groups' g'
           \<and> concat groups' @ g' = concat groups @ g @ [(k, u)]"
proof (cases "cur = []")
  case True
  with inv have g: "g = []" and c: "chunks = []" and gr: "groups = [] \<or> rebuild ov [] groups = []"
    by (auto simp: grouped_def)
  from inv c have r: "rebuild ov [] groups = []" by (simp add: grouped_def)
  have "grouped ov (chunks, u) groups [(k, u)]"
    using inv u c r by (simp add: grouped_def getLastNChars_Nil)
  then show ?thesis using True u g by (auto simp: unit_step_empty)
next
  case ne: False
  with inv have g: "g \<noteq> []" by (auto simp: grouped_def)
  with inv have cur: "cur = render (getLastNChars (last ([] # chunks)) ov) g"
    and ch: "chunks = rebuild ov [] groups" and ng: "[] \<notin> set groups"
    by (auto simp: grouped_def)
  show ?thesis
  proof (cases "int (len cur) + int (len u) + separator_len k > m")
    case True
    let ?ovt = "getLastNChars cur ov"
    let ?new = "if ?ovt = [] then u else ?ovt @ separator k @ separator k @ u"
    have st: "unit_step m ov (chunks, cur) (k, u) = (chunks @ [cur], ?new)"
      using ne True by (rule unit_step_flush)
    have a: "chunks @ [cur] = rebuild ov [] (groups @ [g])"
      using ch cur by (simp add: rebuild_snoc)
    have b: "?new = render (getLastNChars (last ([] # (chunks @ [cur]))) ov) [(k, u)]"
      by simp
    have n: "?new \<noteq> []" using u by simp
    have ng': "[] \<notin> set (groups @ [g])" using ng g by simp
    have "grouped ov (chunks @ [cur], ?new) (groups @ [g]) [(k, u)]"
      by (rule groupedI[OF a ng' _ n b]) simp
    then show ?thesis unfolding st by (intro exI[of _ "groups @ [g]"] exI[of _ "[(k, u)]"]) simp
  next
    case False
    have st: "unit_step m ov (chunks, cur) (k, u) = (chunks, cur @ separator k @ u)"
      using ne False by (rule unit_step_room)
    have b: "cur @ separator k @ u = render (getLastNChars (last ([] # chunks)) ov) (g @ [(k, u)])"
      using cur g by (simp add: render_snoc)
    have n: "cur @ separator k @ u \<noteq> []" using ne by simp
    have "grouped ov (chunks, cur @ separator k @ u) groups (g @ [(k, u)])"
      by (rule groupedI[OF ch ng _ n b]) simp
    then show ?thesis unfolding st by (intro exI[of _ groups] exI[of _ "g @ [(k, u)]"]) simp
  qed
qed

lemma grouped_fold:
  assumes "\<forall>(k, u) \<in> set us. u \<noteq> []"
  shows "\<exists>groups g. grouped ov (foldl (unit_step m ov) ([], []) us) groups g
           \<and> concat groups @ g = us"
  using assms
proof (induction us rule: rev_induct)
  case Nil
  have "grouped ov ([], []) [] []" by (simp add: grouped_def)
  then show ?case by (intro exI[of _ "[]"]) simp
next
  case (snoc x us)
  obtain k u where x: "x = (k, u)" by (cases x)
  from snoc.prems x have u: "u \<noteq> []" by simp
  from snoc obtain groups g where
    inv: "grouped ov (foldl (unit_step m ov) ([], []) us) groups g"
    and c: "concat groups @ g = us" by auto
  obtain chunks cur where st: "foldl (unit_step m ov) ([], []) us = (chunks, cur)"
    by (cases "foldl (unit_step m ov) ([], []) us")
  from grouped_step[OF inv[unfolded st] u, of m k]
  obtain groups' g' where
    "grouped ov (unit_step m ov (chunks, cur) (k, u)) groups' g'"
    "concat groups' @ g' = concat groups @ g @ [(k, u)]" by blast
  then show ?case using st x c by (intro exI[of _ groups'] exI[of _ g']) simp
qed

text \<open>
  Claim C6, as amended. The chunks carry the units of the text, in their order and each
  once: the units split into consecutive groups that are not empty, one per chunk, and
  every chunk is written from its group alone, after the overlap text taken from the end
  of the chunk before it. A unit is a trimmed paragraph, or a trimmed sentence without its
  terminator.
\<close>

theorem ChunkText_groups_units:
  "\<exists>groups. concat groups = units text maxChunkSize
           \<and> [] \<notin> set groups
           \<and> ChunkText text maxChunkSize overlap =
               rebuild (effective_overlap maxChunkSize overlap) [] groups"
proof -
  let ?m = "effective_max maxChunkSize" and ?ov = "effective_overlap maxChunkSize overlap"
  have ne: "\<forall>(k, u) \<in> set (units text maxChunkSize). u \<noteq> []"
    using units_nonempty by auto
  from grouped_fold[OF ne, of ?ov ?m]
  obtain groups g where
    inv: "grouped ?ov (foldl (unit_step ?m ?ov) ([], []) (units text maxChunkSize)) groups g"
    and c: "concat groups @ g = units text maxChunkSize" by blast
  obtain chunks cur where
    st: "foldl (unit_step ?m ?ov) ([], []) (units text maxChunkSize) = (chunks, cur)"
    by (cases "foldl (unit_step ?m ?ov) ([], []) (units text maxChunkSize)")
  have ct: "ChunkText text maxChunkSize overlap = (if cur \<noteq> [] then chunks @ [cur] else chunks)"
    by (simp add: ChunkText_fold st)
  show ?thesis
  proof (cases "g = []")
    case True
    with inv st have "cur = []" "chunks = rebuild ?ov [] groups" "[] \<notin> set groups"
      by (auto simp: grouped_def)
    then show ?thesis using ct c True by (intro exI[of _ groups]) simp
  next
    case False
    with inv st have cur: "cur \<noteq> []" "cur = render (getLastNChars (last ([] # chunks)) ?ov) g"
      and ch: "chunks = rebuild ?ov [] groups" and ng: "[] \<notin> set groups"
      by (auto simp: grouped_def)
    have "chunks @ [cur] = rebuild ?ov [] (groups @ [g])"
      using ch cur by (simp add: rebuild_snoc)
    then show ?thesis using ct c cur False ng by (intro exI[of _ "groups @ [g]"]) simp
  qed
qed

lemmas chunk_eval = ChunkText_def effective_max_def effective_overlap_def Split_def
  split_loop.simps HasPrefix_def paragraph_loop.simps sentence_loop.simps add_unit_def
  TrimSpace_def IsSpace_def RuneCountInString_def splitIntoSentences_def FieldsFunc_def
  len_def utf8_width_def getLastNChars_def Let_def str_def units_def paragraph_units_def






text \<open>With an overlap, the builder is checked before the overlap text and the separators
  are written: the second chunk of three has 14 characters on a budget of 10, though every
  paragraph has 8 at most.\<close>

lemma ChunkText_overlap_seed_overflow:
  "ChunkText (str ''aaaaaaaa\<newline>\<newline>bbbbbbbb\<newline>\<newline>c'') 10 2 =
     [str ''aaaaaaaa'', str ''aa\<newline>\<newline>\<newline>\<newline>bbbbbbbb'', str ''bb\<newline>\<newline>\<newline>\<newline>c'']
   \<and> RuneCountInString (str ''aa\<newline>\<newline>\<newline>\<newline>bbbbbbbb'') = 14"
  by (simp add: chunk_eval)


text \<open>
  Claim C6 as stated fails: the chunks do not hold the content of the text. The sentence
  terminators are dropped, so two different texts have the same chunks.
\<close>

theorem ChunkText_drops_terminators:
  "ChunkText (str ''Hi. Yo'') 3 0 = [str ''Hi'', str ''Yo'']
   \<and> ChunkText (str ''Hi! Yo'') 3 0 = [str ''Hi'', str ''Yo'']
   \<and> of_char CHR ''.'' \<in> set (str ''Hi. Yo'')
   \<and> of_char CHR ''.'' \<notin> set (concat (ChunkText (str ''Hi. Yo'') 3 0))"
  by (simp add: chunk_eval)

text \<open>The amended claim on a text of two sentences.\<close>

theorem ChunkText_groups_units_witness:
  "units (str ''Hi. Yo'') 3 = [(SentenceUnit, str ''Hi''), (SentenceUnit, str ''Yo'')]
   \<and> (\<exists>groups. concat groups = units (str ''Hi. Yo'') 3
           \<and> [] \<notin> set groups
           \<and> ChunkText (str ''Hi. Yo'') 3 0 = rebuild (effective_overlap 3 0) [] groups)"
proof -
  have "units (str ''Hi. Yo'') 3 = [(SentenceUnit, str ''Hi''), (SentenceUnit, str ''Yo'')]"
    by (simp add: chunk_eval)
  with ChunkText_groups_units[of "str ''Hi. Yo''" 3 0] show ?thesis by blast
qed

section \<open>Verification: shutdown of the worker pool\<close>

lemma live_count_exit:
  "i < length ws \<Longrightarrow> ws ! i \<noteq> WorkerExited \<Longrightarrow>
   length (filter (\<lambda>w. w \<noteq> WorkerExited) (ws[i := WorkerExited]))
     = length (filter (\<lambda>w. w \<noteq> WorkerExited) ws) - 1"
proof (induction ws arbitrary: i)
  case Nil
  then show ?case by simp
next
  case (Cons w ws)
  then show ?case
  proof (cases i)
    case 0
    with Cons.prems show ?thesis by simp
  next
    case (Suc j)
    with Cons.prems have "j < length ws" "ws ! j \<noteq> WorkerExited" by simp_all
    then have ih: "length (filter (\<lambda>w. w \<noteq> WorkerExited) (ws[j := WorkerExited]))
                 = length (filter (\<lambda>w. w \<noteq> WorkerExited) ws) - 1"
      by (rule Cons.IH)
    have "ws ! j \<in> set ws" using \<open>j < length ws\<close> by (rule nth_mem)
    then have "filter (\<lambda>w. w \<noteq> WorkerExited) ws \<noteq> []"
      using \<open>ws ! j \<noteq> WorkerExited\<close> unfolding filter_empty_conv by blast
    then have "0 < length (filter (\<lambda>w. w \<noteq> WorkerExited) ws)" by simp
    then show ?thesis using Suc ih by simp
  qed
qed

lemma live_count_keep:
  "i < length ws \<Longrightarrow> ws ! i \<noteq> WorkerExited \<Longrightarrow> w' \<noteq> WorkerExited \<Longrightarrow>
   length (filter (\<lambda>w. w \<noteq> WorkerExited) (ws[i := w']))
     = length (filter (\<lambda>w. w \<noteq> WorkerExited) ws)"
proof (induction ws arbitrary: i)
  case Nil
  then show ?case by simp
next
  case (Cons w ws)
  then show ?case by (cases i) simp_all
qed

lemma live_count_pos:
  "i < length ws \<Longrightarrow> ws ! i \<noteq> WorkerExited \<Longrightarrow>
   0 < length (filter (\<lambda>w. w \<noteq> WorkerExited) ws)"
proof -
  assume a: "i < length ws" "ws ! i \<noteq> WorkerExited"
  have "ws ! i \<in> set ws" using a(1) by (rule nth_mem)
  then have "filter (\<lambda>w. w \<noteq> WorkerExited) ws \<noteq> []"
    using a(2) unfolding filter_empty_conv by blast
  then show ?thesis by simp
qed

lemma pool_invariant_step:
  assumes "step s t" and "pool_invariant s"
  shows "pool_invariant t"
  using assms
proof (induction rule: step.induct)
  case (Stop_close s)
  then show ?case by (simp add: pool_invariant_def live_def)
next
  case (Stop_return s)
  then show ?case by (simp add: pool_invariant_def live_def)
next
  case (Worker_stop i s)
  then have "stop_call s \<noteq> Returned"
    using live_count_pos[of i "workers s"] by (auto simp: pool_invariant_def live_def)
  moreover have "0 < length (filter (\<lambda>w. w \<noteq> WorkerExited) (workers s))"
    using Worker_stop live_count_pos[of i "workers s"] by simp
  ultimately show ?case using Worker_stop
    by (simp add: pool_invariant_def live_def live_count_exit)
next
  case (Worker_receive i s evalID rest)
  then show ?case by (simp add: pool_invariant_def live_def live_count_keep)
next
  case (Worker_done i s evalID)
  then show ?case by (simp add: pool_invariant_def live_def live_count_keep)
next
  case (Poller_stop s)
  then show ?case by (auto simp: pool_invariant_def live_def)
next
  case (Poller_tick s pendingJobs)
  then show ?case by (auto simp: pool_invariant_def live_def)
next
  case (Poller_send s evalID rest)
  then show ?case by (auto simp: pool_invariant_def live_def)
next
  case (Poller_abandon s evalID rest)
  then show ?case by (auto simp: pool_invariant_def live_def)
next
  case (Poller_loop s)
  then show ?case by (auto simp: pool_invariant_def live_def)
next
  case (Caller_send s evalID)
  then show ?case by (auto simp: pool_invariant_def live_def)
qed

lemma pool_invariant_after_Start: "pool_invariant (after_Start n q)"
  by (simp add: pool_invariant_def after_Start_def live_def)

lemma pool_invariant_reachable:
  "step\<^sup>*\<^sup>* (after_Start n q) s \<Longrightarrow> pool_invariant s"
  by (induction rule: rtranclp_induct)
     (simp_all add: pool_invariant_after_Start pool_invariant_step)

lemma no_live_all_exited:
  "live s = 0 \<Longrightarrow> (\<forall>w \<in> set (workers s). w = WorkerExited) \<and> poller s = PollerExited"
  by (auto simp: live_def filter_empty_conv split: if_splits)

lemma running_step:
  assumes "step s t" and "i < length (workers s)" and "workers s ! i = Running evalID"
  shows "workers t ! i = Running evalID \<or> workers t ! i = Selecting"
  using assms
proof (induction rule: step.induct)
  case (Worker_stop j s)
  then have "j \<noteq> i" by auto
  then show ?case using Worker_stop by simp
next
  case (Worker_receive j s evalID' rest)
  then have "j \<noteq> i" by auto
  then show ?case using Worker_receive by simp
next
  case (Worker_done j s evalID')
  then show ?case by (cases "j = i") simp_all
qed simp_all

text \<open>
  Claim C9, as amended. In every state the pool reaches after \<^verbatim>\<open>Start\<close>: when \<^verbatim>\<open>Stop\<close>
  has returned, every worker loop and the poller have exited; and a worker that runs a
  job does nothing but finish it, so no job is cut short and none is running when
  \<^verbatim>\<open>Stop\<close> returns.
\<close>

theorem Stop_returns_after_all_exited:
  assumes "step\<^sup>*\<^sup>* (after_Start concurrency queued) s"
  shows "(stop_call s = Returned \<longrightarrow>
            (\<forall>w \<in> set (workers s). w = WorkerExited) \<and> poller s = PollerExited)
       \<and> (\<forall>t i evalID. step s t \<and> i < length (workers s) \<and> workers s ! i = Running evalID
             \<longrightarrow> workers t ! i = Running evalID \<or> workers t ! i = Selecting)"
proof (rule conjI)
  show "stop_call s = Returned \<longrightarrow>
            (\<forall>w \<in> set (workers s). w = WorkerExited) \<and> poller s = PollerExited"
  proof
    assume r: "stop_call s = Returned"
    from assms have "pool_invariant s" by (rule pool_invariant_reachable)
    with r have "live s = 0" by (simp add: pool_invariant_def)
    then show "(\<forall>w \<in> set (workers s). w = WorkerExited) \<and> poller s = PollerExited"
      by (rule no_live_all_exited)
  qed
  show "\<forall>t i evalID. step s t \<and> i < length (workers s) \<and> workers s ! i = Running evalID
             \<longrightarrow> workers t ! i = Running evalID \<or> workers t ! i = Selecting"
  proof (intro allI impI)
    fix t i evalID
    assume "step s t \<and> i < length (workers s) \<and> workers s ! i = Running evalID"
    then show "workers t ! i = Running evalID \<or> workers t ! i = Selecting"
      by (intro running_step[of s t i evalID]) simp_all
  qed
qed

lemma step_1: "step (after_Start 1 [7]) stopping_pool"
  using Stop_close[of "after_Start 1 [7]"]
  by (simp add: after_Start_def stopping_pool_def numeral_2_eq_2)

lemma step_2: "step stopping_pool late_start_pool"
  using Worker_receive[of 0 stopping_pool 7 "[]"] by (simp add: stopping_pool_def late_start_pool_def)

text \<open>
  Claim C9 as stated fails in its first part: after \<^verbatim>\<open>Stop\<close> has closed the stop channel,
  a worker whose \<^verbatim>\<open>select\<close> finds a job in the queue may receive it and start it.
\<close>

theorem job_starts_after_Stop:
  "step\<^sup>*\<^sup>* (after_Start 1 [7]) late_start_pool
   \<and> stop_call late_start_pool = Waiting
   \<and> workers late_start_pool = [Running 7]
   \<and> started_after_stop late_start_pool = [7]"
proof -
  have "step\<^sup>*\<^sup>* (after_Start 1 [7]) late_start_pool"
    using r_into_rtranclp[of step, OF step_1] step_2 by (rule rtranclp.rtrancl_into_rtrancl)
  then show ?thesis by (simp add: late_start_pool_def)
qed


lemma step_3: "step late_start_pool (late_start_pool\<lparr>workers := [Selecting]\<rparr>)"
  using Worker_done[of 0 late_start_pool 7] by (simp add: late_start_pool_def)

lemma step_4:
  "step (late_start_pool\<lparr>workers := [Selecting]\<rparr>)
        (late_start_pool\<lparr>workers := [WorkerExited], wg := 1\<rparr>)"
  using Worker_stop[of 0 "late_start_pool\<lparr>workers := [Selecting]\<rparr>"]
  by (simp add: late_start_pool_def)

lemma step_5:
  "step (late_start_pool\<lparr>workers := [WorkerExited], wg := 1\<rparr>)
        (late_start_pool\<lparr>workers := [WorkerExited], wg := 0, poller := PollerExited\<rparr>)"
  using Poller_stop[of "late_start_pool\<lparr>workers := [WorkerExited], wg := 1\<rparr>"]
  by (simp add: late_start_pool_def)

lemma step_6:
  "step (late_start_pool\<lparr>workers := [WorkerExited], wg := 0, poller := PollerExited\<rparr>)
        stopped_pool"
  using Stop_return[of "late_start_pool\<lparr>workers := [WorkerExited], wg := 0,
                                         poller := PollerExited\<rparr>"]
  by (simp add: late_start_pool_def stopped_pool_def)

lemma stopped_pool_reachable: "step\<^sup>*\<^sup>* (after_Start 1 [7]) stopped_pool"
proof -
  have "step\<^sup>*\<^sup>* (after_Start 1 [7]) stopping_pool" using step_1 by (rule r_into_rtranclp)
  then have "step\<^sup>*\<^sup>* (after_Start 1 [7]) late_start_pool"
    using step_2 by (rule rtranclp.rtrancl_into_rtrancl)
  then have "step\<^sup>*\<^sup>* (after_Start 1 [7]) (late_start_pool\<lparr>workers := [Selecting]\<rparr>)"
    using step_3 by (rule rtranclp.rtrancl_into_rtrancl)
  then have "step\<^sup>*\<^sup>* (after_Start 1 [7])
               (late_start_pool\<lparr>workers := [WorkerExited], wg := 1\<rparr>)"
    using step_4 by (rule rtranclp.rtrancl_into_rtrancl)
  then have "step\<^sup>*\<^sup>* (after_Start 1 [7])
               (late_start_pool\<lparr>workers := [WorkerExited], wg := 0, poller := PollerExited\<rparr>)"
    using step_5 by (rule rtranclp.rtrancl_into_rtrancl)
  then show ?thesis using step_6 by (rule rtranclp.rtrancl_into_rtrancl)
qed

text \<open>The amended claim on the run that ends with the return of \<^verbatim>\<open>Stop\<close>.\<close>

theorem Stop_returns_after_all_exited_witness:
  "step\<^sup>*\<^sup>* (after_Start 1 [7]) stopped_pool
   \<and> stop_call stopped_pool = Returned
   \<and> poller stopped_pool = PollerExited
   \<and> workers stopped_pool = [WorkerExited]"
proof -
  have r: "stop_call stopped_pool = Returned" by (simp add: stopped_pool_def)
  from Stop_returns_after_all_exited[OF stopped_pool_reachable] r
  have "poller stopped_pool = PollerExited" by blast
  with stopped_pool_reachable r show ?thesis by (simp add: stopped_pool_def)
qed

end
